theory Spec2Isabelle
  imports Complex_Main "HOL-Library.List_Lexorder" "HOL-Library.Char_ord" "HOL-Library.AList"
begin

section \<open>The pintk session object (src/pint/pintk/pulsar.py)\<close>

text \<open>
  The class \<open>Pulsar\<close> of \<^verbatim>\<open>pulsar.py\<close> is embedded as a record that is passed
  through every method and returned updated.  A method returns the session it leaves
  behind together with either the exception it raised (\<open>Inl\<close>) or its return value
  (\<open>Inr\<close>): a Python exception leaves the attributes assigned so far in place, and
  the pair keeps them visible.

  Times (MJD, days) and parameter values are real numbers; the thresholds and
  comparisons of the source are exact on them.  Printing and logging are left out.
\<close>

subsection \<open>Errors\<close>

datatype error =
  TypeError | AttributeError | IndexError | ValueError | KeyError string
  | FitFailure string

subsection \<open>TOA tables\<close>

text \<open>
  One row of the TOA table: the stable \<open>index\<close>, the observatory \<open>obs\<close>, the
  time \<open>tdbld\<close>, the \<open>flags\<close> dictionary (key to the list of ids it holds; the key
  \<open>''jump''\<close> holds the ids of the jumps the TOA belongs to) and the cells of the
  columns added later (\<open>pulse_number\<close>, \<open>delta_pulse_number\<close>, ...).
\<close>

record toa =
  index :: nat
  obs :: string
  tdbld :: real
  flags :: "(string \<times> nat list) list"
  cells :: "(string \<times> real) list"

record table =
  colnames :: "string list"
  rows :: "toa list"

text \<open>A \<open>TOAs\<close> object; its \<open>table\<close> attribute is \<open>None\<close> after \<open>_delete_TOAs\<close>
  removed every row.\<close>

record TOAs =
  table :: "table option"

text \<open>Modelled from the spec: \<open>TOAs.ntoas\<close> (pint/toa.py, not among the sources), of the
  interface of section 6: the number of rows of the table; the length of \<open>None\<close> raises.\<close>

definition ntoas :: "TOAs \<Rightarrow> error + nat" where
  "ntoas t = (case table t of None \<Rightarrow> Inl TypeError | Some tb \<Rightarrow> Inr (length (rows tb)))"

text \<open>The rows a boolean mask of the same length selects.\<close>

definition take_mask :: "'a list \<Rightarrow> bool list \<Rightarrow> 'a list" where
  "take_mask xs m = map fst (filter snd (zip xs m))"

text \<open>
  \<open>table[mask]\<close> for a boolean array (astropy and numpy): an empty array gives the
  table with no rows, an array of another length than the table raises IndexError.
\<close>

definition table_getitem :: "table \<Rightarrow> bool list \<Rightarrow> error + table" where
  "table_getitem t m =
     (if m = [] then Inr (t\<lparr>rows := []\<rparr>)
      else if length m \<noteq> length (rows t) then Inl IndexError
      else Inr (t\<lparr>rows := take_mask (rows t) m\<rparr>))"

text \<open>\<open>table.group_by("obs")\<close>: the rows sorted by observatory, stably.\<close>

definition group_by_obs :: "table \<Rightarrow> table" where
  "group_by_obs t = t\<lparr>rows := sort_key obs (rows t)\<rparr>"

text \<open>\<open>np.where(bs)[0]\<close>: the positions that hold \<open>True\<close>, ascending.\<close>

definition np_where :: "bool list \<Rightarrow> nat list" where
  "np_where bs = filter (\<lambda>p. bs ! p) [0..<length bs]"

text \<open>\<open>table[name] = values\<close>: the column is added, or overwritten when present.\<close>

definition set_column :: "string \<Rightarrow> real list \<Rightarrow> table \<Rightarrow> table" where
  "set_column name vs t =
     t\<lparr>colnames := (if name \<in> set (colnames t) then colnames t else colnames t @ [name]),
       rows := map (\<lambda>(r, v). r\<lparr>cells := AList.update name v (cells r)\<rparr>) (zip (rows t) vs)\<rparr>"

text \<open>The cell of a row in a column; 0 stands for a missing one.\<close>

definition cell :: "string \<Rightarrow> toa \<Rightarrow> real" where
  "cell name r = (case map_of (cells r) name of None \<Rightarrow> 0 | Some v \<Rightarrow> v)"

definition column :: "string \<Rightarrow> table \<Rightarrow> real list" where
  "column name t = map (cell name) (rows t)"

subsection \<open>Models, residuals, and the session\<close>

text \<open>
  A timing model, as far as the session looks into it: the names of its components and
  its parameters in order.  The jump parameter \<open>JUMPk\<close> is \<open>JUMP k\<close>.  Models are
  values: the copies the source takes with \<open>copy.deepcopy\<close> and the fitter's own copy
  of the model are independent of their originals.
\<close>

datatype pname = Named string | JUMP nat

record par =
  pvalue :: real
  frozen :: bool

record model =
  components :: "string list"
  params :: "(pname \<times> par) list"

text \<open>\<open>Residuals(toas, model, track_mode)\<close> is a function of its three arguments only;
  the residual object is kept as these arguments.\<close>

datatype resids = Residuals TOAs model "string option"

datatype Fitters = POWELL | WLS | GLS

record pulsar =
  prefit_model :: model
  postfit_model :: "model option"
  all_toas :: TOAs
  selected_toas :: TOAs
  prefit_resids :: "resids option"
  postfit_resids :: "resids option"
  prefit_resids_no_jumps :: "resids option"
  deleted :: "nat list"
  fitter :: Fitters
  fitted :: bool
  stashed :: "TOAs option"
  use_pulse_numbers :: bool
  random_resids :: "real list list option"
  fake_toas :: "TOAs option"

subsection \<open>Deleting TOAs\<close>

text \<open>
  \<open>self.deleted\<close> is a Python set; it is kept as the list of its elements.
  \<open>self.deleted |= set(indices)\<close>:
\<close>

definition pyset_union :: "nat list \<Rightarrow> nat list \<Rightarrow> nat list" where
  "pyset_union d indices = d @ filter (\<lambda>i. i \<notin> set d) (remdups indices)"

text \<open>
  The loop of \<open>_delete_TOAs\<close>: for each deleted index \<open>ii\<close>, the first position of the
  table whose index is \<open>ii\<close> (if there is one) is marked in \<open>del_inds\<close>.
\<close>

definition mark_deleted :: "toa list \<Rightarrow> nat \<Rightarrow> bool list \<Rightarrow> bool list" where
  "mark_deleted tb ii del_inds =
     (case np_where (map (\<lambda>r. index r = ii) tb) of
        [] \<Rightarrow> del_inds
      | p # _ \<Rightarrow> del_inds[p := True])"

definition del_inds_of :: "nat list \<Rightarrow> toa list \<Rightarrow> bool list" where
  "del_inds_of d tb = fold (mark_deleted tb) d (replicate (length tb) False)"

text \<open>\<open>_delete_TOAs(toa_table)\<close>; the result of \<open>toa_table.group_by("index")\<close> in its
  first line is dropped by the source, so the line has no effect.\<close>

definition delete_TOAs_table :: "nat list \<Rightarrow> table \<Rightarrow> table option" where
  "delete_TOAs_table d t =
     (let del_inds = del_inds_of d (rows t) in
      if length (filter id del_inds) < length (rows t)
      then Some (group_by_obs (t\<lparr>rows := take_mask (rows t) (map Not del_inds)\<rparr>))
      else None)"

text \<open>\<open>self._delete_TOAs(toas.table)\<close> on a \<open>TOAs\<close> object; \<open>None.group_by\<close> raises.\<close>

definition delete_from :: "nat list \<Rightarrow> TOAs \<Rightarrow> error + TOAs" where
  "delete_from d t =
     (case table t of
        None \<Rightarrow> Inl AttributeError
      | Some tb \<Rightarrow> Inr (t\<lparr>table := delete_TOAs_table d tb\<rparr>))"

text \<open>The list comprehension of \<open>delete_TOAs\<close>: the index column of the table zipped
  with the mask, the mask's entry kept where the index is not among \<open>indices\<close>.\<close>

definition newselected :: "table \<Rightarrow> bool list \<Rightarrow> nat list \<Rightarrow> bool list" where
  "newselected t selected indices =
     map snd (filter (\<lambda>(idx, sel). idx \<notin> set indices) (zip (map index (rows t)) selected))"

text \<open>The last statement of \<open>delete_TOAs\<close>: the stashed TOAs lose the deleted rows too.
  \<open>if self.stashed\<close> asks for the length of the stashed TOAs.\<close>

definition delete_stashed :: "pulsar \<Rightarrow> error + pulsar" where
  "delete_stashed s =
     (case stashed s of
        None \<Rightarrow> Inr s
      | Some st \<Rightarrow>
          (case table st of
             None \<Rightarrow> Inl TypeError
           | Some tb \<Rightarrow>
               if rows tb = [] then Inr s
               else Inr (s\<lparr>stashed := Some (st\<lparr>table := delete_TOAs_table (deleted s) tb\<rparr>)\<rparr>)))"

text \<open>The branch of \<open>delete_TOAs\<close> after both tables lost their rows.\<close>

definition reselect :: "pulsar \<Rightarrow> nat list \<Rightarrow> bool list option \<Rightarrow> pulsar \<times> (error + bool list)" where
  "reselect s indices selected =
     (case table (selected_toas s) of
        None \<Rightarrow>
          (let s' = s\<lparr>selected_toas := all_toas s\<rparr> in
           case ntoas (selected_toas s') of
             Inl e \<Rightarrow> (s', Inl e)
           | Inr n \<Rightarrow> (s', Inr (replicate n False)))
      | Some _ \<Rightarrow>
          (case table (all_toas s) of
             None \<Rightarrow> (s, Inl TypeError)
           | Some ta \<Rightarrow>
               (case selected of
                  None \<Rightarrow> (s, Inl TypeError)
                | Some sel \<Rightarrow>
                    (let sel' = newselected ta sel indices in
                     case table_getitem ta sel' of
                       Inl e \<Rightarrow> (s, Inl e)
                     | Inr tb \<Rightarrow>
                         (s\<lparr>selected_toas := (selected_toas s)\<lparr>table := Some tb\<rparr>\<rparr>, Inr sel')))))"

definition delete_TOAs :: "pulsar \<Rightarrow> nat list \<Rightarrow> bool list option \<Rightarrow> pulsar \<times> (error + bool list)" where
  "delete_TOAs s indices selected =
     (let s1 = s\<lparr>deleted := pyset_union (deleted s) indices\<rparr> in
      case (if selected \<noteq> None then delete_from (deleted s1) (selected_toas s1)
            else Inr (selected_toas s1)) of
        Inl e \<Rightarrow> (s1, Inl e)
      | Inr st \<Rightarrow>
          (let s2 = s1\<lparr>selected_toas := st\<rparr> in
           case delete_from (deleted s2) (all_toas s2) of
             Inl e \<Rightarrow> (s2, Inl e)
           | Inr al \<Rightarrow>
               (case reselect (s2\<lparr>all_toas := al\<rparr>) indices selected of
                  (s3, Inl e) \<Rightarrow> (s3, Inl e)
                | (s3, Inr sel') \<Rightarrow>
                    (case delete_stashed s3 of
                       Inl e \<Rightarrow> (s3, Inl e)
                     | Inr s4 \<Rightarrow> (s4, Inr sel')))))"

subsection \<open>External collaborators\<close>

text \<open>
  What the session calls and this file does not look into, as the functions they are
  taken to be: the fitter of the chosen kind built on a TOA set and a model and run for
  one iteration (\<open>fit_toas\<close>; it gives the fitter's refined model or the exception it
  raised), the pulse number a model assigns to a TOA, the phase residuals of a residual
  object, the current time as an MJD, the model and the TOAs read from the session's
  files, the initial value of a new jump parameter, and the two functions of
  \<open>pint.simulation\<close>.
\<close>

record ext =
  fit_toas :: "Fitters \<Rightarrow> TOAs \<Rightarrow> model \<Rightarrow> error + model"
  pulse_number_of :: "model \<Rightarrow> toa \<Rightarrow> real"
  phase_resids :: "resids \<Rightarrow> real list"
  now_mjd :: real
  get_model :: model
  get_TOAs :: "model \<Rightarrow> TOAs"
  new_jump_value :: real
  make_fake_toas_uniform :: "real \<Rightarrow> real \<Rightarrow> nat \<Rightarrow> model \<Rightarrow> TOAs"
  calculate_random_models :: "TOAs \<Rightarrow> model \<Rightarrow> TOAs \<Rightarrow> real list list"

text \<open>Statements in sequence: the next one runs on the session the last one left,
  unless that one raised.\<close>

definition and_then ::
  "pulsar \<times> (error + 'a) \<Rightarrow> (pulsar \<Rightarrow> pulsar \<times> (error + 'b)) \<Rightarrow> pulsar \<times> (error + 'b)" where
  "and_then r f = (case r of (s, Inl e) \<Rightarrow> (s, Inl e) | (s, Inr _) \<Rightarrow> f s)"

subsection \<open>Residuals and resets\<close>

text \<open>\<open>update_resids()\<close>: the pre-fit residuals, and the post-fit ones of a fitted session,
  are computed anew over the full TOA set, in the tracking mode of the session.\<close>

definition update_resids :: "pulsar \<Rightarrow> pulsar \<times> (error + unit)" where
  "update_resids s =
     (let track_mode = (if use_pulse_numbers s then Some ''use_pulse_numbers'' else None);
          s1 = s\<lparr>prefit_resids := Some (Residuals (all_toas s) (prefit_model s) track_mode)\<rparr>
      in if fitted s1
         then (case postfit_model s1 of
                 None \<Rightarrow> (s1, Inl AttributeError)
               | Some pm \<Rightarrow>
                   (s1\<lparr>postfit_resids := Some (Residuals (all_toas s1) pm track_mode)\<rparr>, Inr ()))
         else (s1, Inr ()))"

text \<open>\<open>reset_model()\<close>, \<open>reset_TOAs()\<close> and \<open>resetAll()\<close>: the model, the TOAs, or both are read
  again from the files of the session.\<close>

definition reset_model :: "ext \<Rightarrow> pulsar \<Rightarrow> pulsar \<times> (error + unit)" where
  "reset_model X s =
     update_resids (s\<lparr>prefit_model := get_model X, postfit_model := None,
                      postfit_resids := None, fitted := False\<rparr>)"

definition reset_TOAs :: "ext \<Rightarrow> pulsar \<Rightarrow> pulsar \<times> (error + unit)" where
  "reset_TOAs X s =
     update_resids (s\<lparr>all_toas := get_TOAs X (prefit_model s),
                      selected_toas := get_TOAs X (prefit_model s),
                      deleted := [], stashed := None\<rparr>)"

definition resetAll :: "ext \<Rightarrow> pulsar \<Rightarrow> pulsar \<times> (error + unit)" where
  "resetAll X s =
     reset_TOAs X (s\<lparr>prefit_model := get_model X, postfit_model := None,
                     postfit_resids := None, fitted := False, use_pulse_numbers := False\<rparr>)"

subsection \<open>Phase wraps\<close>

text \<open>Modelled from the spec: \<open>TOAs.compute_pulse_numbers(model)\<close> (pint/toa.py, not among the
  sources).  Sections 4.2 and 4.4 of the specification: the \<open>pulse_number\<close> column is
  computed from the model; it is set row by row, and no other column changes.\<close>

definition compute_pulse_numbers :: "ext \<Rightarrow> model \<Rightarrow> TOAs \<Rightarrow> error + TOAs" where
  "compute_pulse_numbers X m t =
     (case table t of
        None \<Rightarrow> Inl TypeError
      | Some tb \<Rightarrow>
          Inr (t\<lparr>table := Some (set_column ''pulse_number'' (map (pulse_number_of X m) (rows tb)) tb)\<rparr>))"

text \<open>\<open>toas.table[name] = np.zeros(toas.ntoas)\<close>.\<close>

definition zero_column :: "string \<Rightarrow> TOAs \<Rightarrow> error + TOAs" where
  "zero_column name t =
     (case table t of
        None \<Rightarrow> Inl TypeError
      | Some tb \<Rightarrow> Inr (t\<lparr>table := Some (set_column name (replicate (length (rows tb)) 0) tb)\<rparr>))"

text \<open>The test \<open>name not in all_toas.table.colnames or name not in
  selected_toas.table.colnames\<close>; the second table is looked at only when the first
  has the column.\<close>

definition column_missing :: "string \<Rightarrow> pulsar \<Rightarrow> error + bool" where
  "column_missing name s =
     (case table (all_toas s) of
        None \<Rightarrow> Inl AttributeError
      | Some ta \<Rightarrow>
          if name \<notin> set (colnames ta) then Inr True
          else (case table (selected_toas s) of
                  None \<Rightarrow> Inl AttributeError
                | Some ts \<Rightarrow> Inr (name \<notin> set (colnames ts))))"

text \<open>Both TOA sets get their pulse numbers from the model, the full set first.\<close>

definition compute_both :: "ext \<Rightarrow> model \<Rightarrow> pulsar \<Rightarrow> pulsar \<times> (error + unit)" where
  "compute_both X m s =
     (case compute_pulse_numbers X m (all_toas s) of
        Inl e \<Rightarrow> (s, Inl e)
      | Inr al \<Rightarrow>
          (case compute_pulse_numbers X m (selected_toas s) of
             Inl e \<Rightarrow> (s\<lparr>all_toas := al\<rparr>, Inl e)
           | Inr st \<Rightarrow> (s\<lparr>all_toas := al, selected_toas := st\<rparr>, Inr ())))"

text \<open>The first \<open>if\<close> of \<open>add_phase_wrap\<close>.\<close>

definition ensure_pulse_numbers :: "ext \<Rightarrow> pulsar \<Rightarrow> pulsar \<times> (error + unit)" where
  "ensure_pulse_numbers X s =
     (case column_missing ''pulse_number'' s of
        Inl e \<Rightarrow> (s, Inl e)
      | Inr False \<Rightarrow> (s, Inr ())
      | Inr True \<Rightarrow>
          if fitted s
          then (case postfit_model s of
                  None \<Rightarrow> (s, Inl AttributeError)
                | Some pm \<Rightarrow> compute_both X pm s)
          else compute_both X (prefit_model s) s)"

text \<open>The second \<open>if\<close> of \<open>add_phase_wrap\<close>.\<close>

definition ensure_delta_pulse_number :: "pulsar \<Rightarrow> pulsar \<times> (error + unit)" where
  "ensure_delta_pulse_number s =
     (case column_missing ''delta_pulse_number'' s of
        Inl e \<Rightarrow> (s, Inl e)
      | Inr False \<Rightarrow> (s, Inr ())
      | Inr True \<Rightarrow>
          (case zero_column ''delta_pulse_number'' (all_toas s) of
             Inl e \<Rightarrow> (s, Inl e)
           | Inr al \<Rightarrow>
               (case zero_column ''delta_pulse_number'' (selected_toas s) of
                  Inl e \<Rightarrow> (s\<lparr>all_toas := al\<rparr>, Inl e)
                | Inr st \<Rightarrow> (s\<lparr>all_toas := al, selected_toas := st\<rparr>, Inr ()))))"

text \<open>\<open>self.all_toas.table["delta_pulse_number"][selected] += phase\<close>; a boolean array
  of another length than the column raises IndexError.\<close>

definition add_to_selected :: "bool list \<Rightarrow> real \<Rightarrow> real list \<Rightarrow> real list" where
  "add_to_selected selected phase col =
     map (\<lambda>(v, b). if b then v + phase else v) (zip col selected)"

definition wrap_selected :: "bool list \<Rightarrow> real \<Rightarrow> pulsar \<Rightarrow> pulsar \<times> (error + unit)" where
  "wrap_selected selected phase s =
     (case table (all_toas s) of
        None \<Rightarrow> (s, Inl TypeError)
      | Some ta \<Rightarrow>
          if length selected \<noteq> length (rows ta) then (s, Inl IndexError)
          else (s\<lparr>all_toas := (all_toas s)\<lparr>table := Some
                   (set_column ''delta_pulse_number''
                      (add_to_selected selected phase (column ''delta_pulse_number'' ta)) ta)\<rparr>\<rparr>,
                Inr ()))"

definition add_phase_wrap :: "ext \<Rightarrow> pulsar \<Rightarrow> bool list \<Rightarrow> real \<Rightarrow> pulsar \<times> (error + unit)" where
  "add_phase_wrap X s selected phase =
     and_then (ensure_pulse_numbers X s) (\<lambda>s.
     and_then (ensure_delta_pulse_number s) (\<lambda>s.
     and_then (wrap_selected selected phase s) (\<lambda>s.
     update_resids (s\<lparr>use_pulse_numbers := True\<rparr>))))"

subsection \<open>The synthetic baseline of the random models\<close>

text \<open>The \<open>if\<close> chain on the time span of the selected TOAs (in days): the right and
  left edge factors and the number of points.\<close>

definition edges_npoints :: "real \<Rightarrow> real \<times> real \<times> nat" where
  "edges_npoints spanMJDs =
     (if spanMJDs < 30 then (4, 4, 400)
      else if spanMJDs < 90 then (2, 2, 300)
      else if spanMJDs < 200 then (1, 1, 300)
      else if spanMJDs < 400 then (0.5, 0.5, 200)
      else (1.0, 1.0, 250))"

text \<open>
  \<open>Check to see if too recent\<close>: the right edge factor after the test against
  \<open>nowish\<close>, which is 40 days before now.  The division by a span of zero happens only
  with a negative numerator; numpy gives minus infinity there, which \<open>max\<close> turns
  into 0.
\<close>

definition cap_redge :: "real \<Rightarrow> real \<Rightarrow> real \<Rightarrow> real \<Rightarrow> real" where
  "cap_redge now maxMJD spanMJDs redge =
     (let nowish = now - 40 in
      if maxMJD + spanMJDs * redge > nowish
      then (if spanMJDs = 0 then 0 else max ((nowish - maxMJD) / spanMJDs) 0.0)
      else redge)"

text \<open>The first three arguments of the call of \<open>make_fake_toas_uniform\<close>: where the
  synthetic TOAs start and end, and how many they are.\<close>

definition fake_baseline :: "real \<Rightarrow> real \<Rightarrow> real \<Rightarrow> real \<times> real \<times> nat" where
  "fake_baseline now minMJD maxMJD =
     (let spanMJDs = maxMJD - minMJD;
          (redge, ledge, npoints) = edges_npoints spanMJDs;
          redge = cap_redge now maxMJD spanMJDs redge
      in (minMJD - spanMJDs * ledge, maxMJD + spanMJDs * redge, npoints))"

text \<open>\<open>xs.mean()\<close>; numpy's mean of an empty slice is nan, which this file does not
  have: no statement below is about it.\<close>

definition mean :: "real list \<Rightarrow> real" where
  "mean xs = sum_list xs / real (length xs)"

text \<open>\<open>np.where(cond)[0][0]\<close>: the first position that holds, IndexError when none
  does.\<close>

definition first_where :: "bool list \<Rightarrow> error + nat" where
  "first_where bs = (case np_where bs of [] \<Rightarrow> Inl IndexError | p # _ \<Rightarrow> Inr p)"

text \<open>The value \<open>rs_mean\<close> that is computed before the baseline is never read, but
  computing it can raise.\<close>

definition rs_mean_raises :: "ext \<Rightarrow> pulsar \<Rightarrow> bool list \<Rightarrow> real list \<Rightarrow> error option" where
  "rs_mean_raises X s no_jumps selectedMJDs =
     (if list_all id no_jumps
      then (case table (all_toas s) of
              None \<Rightarrow> Some TypeError
            | Some ta \<Rightarrow>
                if selectedMJDs = [] then Some ValueError
                else if filter (\<lambda>i. i > Min (set selectedMJDs)) (map tdbld (rows ta)) = []
                then Some IndexError
                else None)
      else (case prefit_resids_no_jumps s of
              None \<Rightarrow> Some AttributeError
            | Some r \<Rightarrow>
                if length (phase_resids X r) \<noteq> length no_jumps then Some IndexError
                else None))"

text \<open>The branch \<open>if compute_random\<close>; \<open>fm\<close> is the fitter's model.  The fitter holds the
  selected TOA set of the session.\<close>

definition random_models :: "ext \<Rightarrow> model \<Rightarrow> pulsar \<Rightarrow> pulsar \<times> (error + unit)" where
  "random_models X fm s =
     (case table (selected_toas s) of
        None \<Rightarrow> (s, Inl TypeError)
      | Some ts \<Rightarrow>
          (let no_jumps = map (\<lambda>r. map_of (flags r) ''jump'' = None) (rows ts);
               f_toas_sel = (selected_toas s)\<lparr>table := Some (ts\<lparr>rows := take_mask (rows ts) no_jumps\<rparr>)\<rparr>;
               selectedMJDs = map tdbld (rows ts)
           in case rs_mean_raises X s no_jumps selectedMJDs of
                Some e \<Rightarrow> (s, Inl e)
              | None \<Rightarrow>
                  if selectedMJDs = [] then (s, Inl ValueError)
                  else
                    (let minMJD = Min (set selectedMJDs);
                         maxMJD = Max (set selectedMJDs);
                         (lo, hi, npoints) = fake_baseline (now_mjd X) minMJD maxMJD;
                         f_toas = make_fake_toas_uniform X lo hi npoints fm;
                         rs = calculate_random_models X f_toas_sel fm f_toas
                     in case table f_toas of
                          None \<Rightarrow> (s, Inl TypeError)
                        | Some ft \<Rightarrow>
                            (case first_where (map (\<lambda>r. tdbld r - minMJD \<ge> 0) (rows ft)) of
                               Inl e \<Rightarrow> (s, Inl e)
                             | Inr start_index \<Rightarrow>
                                 (case first_where (map (\<lambda>r. tdbld r - maxMJD \<ge> 0) (rows ft)) of
                                    Inl e \<Rightarrow> (s, Inl e)
                                  | Inr end_index \<Rightarrow>
                                      (s\<lparr>random_resids := Some
                                            (map (\<lambda>r. map (\<lambda>resid. resid
                                                    - mean (drop start_index (take end_index r))) r) rs),
                                         fake_toas := Some f_toas\<rparr>, Inr ()))))))"

subsection \<open>Fitting\<close>

text \<open>\<open>pm_no_jumps\<close>: the copy of the model with every parameter whose name starts
  with JUMP set to 0 and frozen.\<close>

definition is_jump_name :: "pname \<Rightarrow> bool" where
  "is_jump_name n = (case n of JUMP _ \<Rightarrow> True | Named nm \<Rightarrow> take 4 nm = ''JUMP'')"

definition no_jumps_model :: "model \<Rightarrow> model" where
  "no_jumps_model m =
     m\<lparr>params := map (\<lambda>(n, p). if is_jump_name n then (n, p\<lparr>pvalue := 0.0, frozen := True\<rparr>)
                              else (n, p)) (params m)\<rparr>"

text \<open>\<open>if self.fitted\<close>: the post-fit model and residuals become the pre-fit ones.  A
  session that is fitted has a post-fit model; a fitted session without one cannot be
  fitted again.\<close>

definition promote :: "pulsar \<Rightarrow> pulsar \<times> (error + unit)" where
  "promote s =
     (if fitted s
      then (case postfit_model s of
              None \<Rightarrow> (s, Inl TypeError)
            | Some pm \<Rightarrow> (s\<lparr>prefit_model := pm, prefit_resids := postfit_resids s\<rparr>, Inr ()))
      else (s, Inr ()))"

text \<open>The fitter is built on the selected TOAs and the pre-fit model and run; the
  summary printed between the two reads the pre-fit residuals.\<close>

definition run_fitter :: "ext \<Rightarrow> pulsar \<Rightarrow> error + model" where
  "run_fitter X s =
     (case prefit_resids s of
        None \<Rightarrow> Inl AttributeError
      | Some _ \<Rightarrow> fit_toas X (fitter s) (selected_toas s) (prefit_model s))"

text \<open>The statements of \<open>fit\<close> after the fitter returned the model \<open>fm\<close>.  The zeros go
  to the column \<open>delta_pulse_numbers\<close> of the full set and to the column
  \<open>delta_pulse_number\<close> of the selected set, as in the source.  The attribute \<open>f\<close>,
  which keeps the fitter object, is read by no method and is left out.\<close>

definition after_fit :: "ext \<Rightarrow> model \<Rightarrow> pulsar \<Rightarrow> pulsar \<times> (error + unit)" where
  "after_fit X fm s =
     (let s1 = s\<lparr>postfit_model := Some fm, fitted := True\<rparr> in
      case zero_column ''delta_pulse_numbers'' (all_toas s1) of
        Inl e \<Rightarrow> (s1, Inl e)
      | Inr al \<Rightarrow>
          (let s2 = s1\<lparr>all_toas := al\<rparr> in
           case zero_column ''delta_pulse_number'' (selected_toas s2) of
             Inl e \<Rightarrow> (s2, Inl e)
           | Inr st \<Rightarrow>
               and_then (compute_both X fm (s2\<lparr>selected_toas := st\<rparr>)) (\<lambda>s3.
                 (s3\<lparr>postfit_resids := Some (Residuals (all_toas s3) fm None),
                     prefit_resids_no_jumps :=
                       Some (Residuals (all_toas s3) (no_jumps_model (prefit_model s3)) None)\<rparr>,
                  Inr ()))))"

text \<open>\<open>fit(selected, iters, compute_random)\<close>.  The mask is inverted when it selects
  nothing; the fitter always runs with \<open>maxiter=1\<close>, whatever \<open>iters\<close> is.\<close>

definition fit :: "ext \<Rightarrow> pulsar \<Rightarrow> bool list \<Rightarrow> nat \<Rightarrow> bool \<Rightarrow> pulsar \<times> (error + unit)" where
  "fit X s selected iters compute_random =
     (let selected = (if \<not> list_ex id selected then map Not selected else selected) in
      and_then (promote s) (\<lambda>s1.
        case run_fitter X s1 of
          Inl e \<Rightarrow> (s1, Inl e)
        | Inr fm \<Rightarrow>
            and_then (after_fit X fm s1) (\<lambda>s2.
              if compute_random then random_models X fm s2 else (s2, Inr ()))))"

subsection \<open>Jumps\<close>

text \<open>The ids of the jump parameters of a model, in the order of its parameters.\<close>

definition jump_ids :: "model \<Rightarrow> nat list" where
  "jump_ids m = concat (map (\<lambda>(n, p). case n of JUMP k \<Rightarrow> [k] | Named _ \<Rightarrow> []) (params m))"

text \<open>Modelled from the spec: \<open>PhaseJump.get_number_of_jumps()\<close> (pint/models/jump.py, not
  among the sources), of the interface of section 6: the number of jump parameters.\<close>

definition get_number_of_jumps :: "model \<Rightarrow> nat" where
  "get_number_of_jumps m = length (jump_ids m)"

text \<open>Modelled from the spec: \<open>PhaseJump.get_jump_param_objects()\<close> (pint/models/jump.py,
  not among the sources), of the interface of section 6: the jump parameters, here with
  their names, the newest last.\<close>

definition get_jump_param_objects :: "model \<Rightarrow> (pname \<times> par) list" where
  "get_jump_param_objects m =
     filter (\<lambda>(n, p). case n of JUMP _ \<Rightarrow> True | Named _ \<Rightarrow> False) (params m)"

text \<open>Modelled from the spec: \<open>TimingModel.add_component\<close> (pint/models/timing_model.py, not
  among the sources), of the interface of section 6 ("structural mutation"): the model
  has the component from then on, and with it the parameters that the component object
  holds when it is attached.\<close>

definition add_component :: "string \<Rightarrow> (pname \<times> par) list \<Rightarrow> model \<Rightarrow> model" where
  "add_component name held m = m\<lparr>components := components m @ [name], params := params m @ held\<rparr>"

text \<open>The ids in the \<open>jump\<close> flag of a TOA; none when the key is missing.\<close>

definition jumps_of :: "toa \<Rightarrow> nat list" where
  "jumps_of r = (case map_of (flags r) ''jump'' of None \<Rightarrow> [] | Some ids \<Rightarrow> ids)"

text \<open>
  Modelled from the spec: the id that \<open>TimingModel.add_jump_and_flags\<close>
  (pint/models/timing_model.py, not among the sources) gives a new jump.  Section 4.3 of
  the specification: "a new jump id is allocated as the lowest unused positive
  integer"; with no jump before, the id is 1.
\<close>

definition lowest_unused :: "nat list \<Rightarrow> nat" where
  "lowest_unused ids =
     (case filter (\<lambda>k. k \<notin> set ids) [1..<length ids + 2] of
        [] \<Rightarrow> length ids + 1
      | k # _ \<Rightarrow> k)"

text \<open>
  Modelled from the spec: what \<open>TimingModel.add_jump_and_flags\<close> does to the flags it is
  handed, which are the flag dictionaries of the selected TOAs, changed in place.
  Section 4.3: "the selected TOAs receive that id in their jump-flag set".
\<close>

definition add_jump_flag :: "nat \<Rightarrow> toa \<Rightarrow> toa" where
  "add_jump_flag k r = r\<lparr>flags := AList.update ''jump'' (jumps_of r @ [k]) (flags r)\<rparr>"

definition flag_selected :: "nat \<Rightarrow> toa list \<Rightarrow> bool list \<Rightarrow> toa list" where
  "flag_selected k tb selected = map (\<lambda>(r, b). if b then add_jump_flag k r else r) (zip tb selected)"

text \<open>
  Modelled from the spec: \<open>TimingModel.add_jump_and_flags\<close> (pint/models/timing_model.py,
  not among the sources).  Section 4.3: "a new jump id is allocated as the lowest
  unused positive integer, the selected TOAs receive that id in their jump-flag set,
  and a corresponding new, unfrozen jump parameter is added to the Model".  It returns
  the name of the new parameter.  The specification does not give the value of the new
  parameter; it is taken from the collaborators.
\<close>

definition add_jump_and_flags ::
  "ext \<Rightarrow> model \<Rightarrow> toa list \<Rightarrow> bool list \<Rightarrow> model \<times> toa list \<times> pname" where
  "add_jump_and_flags X m tb selected =
     (let k = lowest_unused (jump_ids m) in
      (m\<lparr>params := params m @ [(JUMP k, \<lparr>pvalue = new_jump_value X, frozen = False\<rparr>)]\<rparr>,
       flag_selected k tb selected,
       JUMP k))"

text \<open>
  Modelled from the spec: what \<open>TimingModel.delete_jump_and_flags\<close> does to the flags of
  one TOA.  Section 4.3: "its membership flags cleared".  The id leaves the \<open>jump\<close> flag,
  and the key leaves the dictionary with its last id.
\<close>

definition del_jump_flag :: "nat \<Rightarrow> toa \<Rightarrow> toa" where
  "del_jump_flag k r =
     (case map_of (flags r) ''jump'' of
        None \<Rightarrow> r
      | Some ids \<Rightarrow>
          if removeAll k ids = [] then r\<lparr>flags := AList.delete ''jump'' (flags r)\<rparr>
          else r\<lparr>flags := AList.update ''jump'' (removeAll k ids) (flags r)\<rparr>)"

text \<open>
  Modelled from the spec: \<open>TimingModel.delete_jump_and_flags\<close> (pint/models/timing_model.py,
  not among the sources).  Section 4.3: "that jump is deleted (its parameter removed,
  its membership flags cleared)".  Handed \<open>None\<close> instead of flags, as for the post-fit
  model, the method removes the parameter only.
\<close>

definition delete_jump_and_flags :: "model \<Rightarrow> toa list option \<Rightarrow> nat \<Rightarrow> model \<times> toa list option" where
  "delete_jump_and_flags m tb num =
     (m\<lparr>params := AList.delete (JUMP num) (params m)\<rparr>, map_option (map (del_jump_flag num)) tb)"

text \<open>What \<open>add_jump\<close> returns: the name of the new parameter, the mask of the jump it
  removed, or \<open>None\<close>.\<close>

datatype jump_result = New_jump pname | Removed "bool list" | Nothing

text \<open>\<open>toas_jumped\<close> for the jump \<open>num\<close>: which TOAs of the table carry the id.\<close>

definition toas_jumped :: "toa list \<Rightarrow> nat \<Rightarrow> bool list" where
  "toas_jumped tb num = map (\<lambda>r. num \<in> set (jumps_of r)) tb"

text \<open>The loop \<open>for num in range(1, numjumps + 1)\<close>: the first id whose TOAs are the
  selected ones, if there is one.\<close>

fun matching_jump :: "toa list \<Rightarrow> bool list \<Rightarrow> nat list \<Rightarrow> nat option" where
  "matching_jump tb selected [] = None"
| "matching_jump tb selected (num # nums) =
     (if toas_jumped tb num = selected then Some num else matching_jump tb selected nums)"

text \<open>\<open>self.all_toas.table["flags"][selected]\<close> and the call of \<open>add_jump_and_flags\<close> on
  the pre-fit model.\<close>

definition add_to_prefit :: "ext \<Rightarrow> pulsar \<Rightarrow> bool list \<Rightarrow> pulsar \<times> (error + pname)" where
  "add_to_prefit X s selected =
     (case table (all_toas s) of
        None \<Rightarrow> (s, Inl TypeError)
      | Some ta \<Rightarrow>
          if length selected \<noteq> length (rows ta) then (s, Inl IndexError)
          else (let (m, tb, name) = add_jump_and_flags X (prefit_model s) (rows ta) selected in
                (s\<lparr>prefit_model := m, all_toas := (all_toas s)\<lparr>table := Some (ta\<lparr>rows := tb\<rparr>)\<rparr>\<rparr>,
                 Inr name)))"

text \<open>
  The branch of \<open>add_jump\<close> for a model without the \<open>PhaseJump\<close> component.  One
  component object \<open>a\<close> is made.  It is attached to the pre-fit model while it holds no
  jump, \<open>add_jump_and_flags\<close> on the pre-fit model puts the new jump parameter into it,
  and on a fitted session the same object, which holds the new jump by then, is attached
  to the post-fit model too.  What the component holds is the jump parameters of the
  model.  The later calls of \<open>add_jump\<close> bring the post-fit model in step with every change
  they make through the pre-fit model (lines 366-367 and 375-387), so that the post-fit
  model is kept as a value of its own.
\<close>

definition add_first_jump :: "ext \<Rightarrow> pulsar \<Rightarrow> bool list \<Rightarrow> pulsar \<times> (error + jump_result)" where
  "add_first_jump X s selected =
     (case add_to_prefit X (s\<lparr>prefit_model := add_component ''PhaseJump'' [] (prefit_model s)\<rparr>) selected of
        (s1, Inl e) \<Rightarrow> (s1, Inl e)
      | (s1, Inr name) \<Rightarrow>
          if fitted s1
          then (case postfit_model s1 of
                  None \<Rightarrow> (s1, Inl AttributeError)
                | Some pm \<Rightarrow>
                    (s1\<lparr>postfit_model :=
                         Some (add_component ''PhaseJump'' (get_jump_param_objects (prefit_model s1)) pm)\<rparr>,
                     Inr (New_jump name)))
          else (s1, Inr (New_jump name)))"

text \<open>The jump \<open>num\<close> matches the selection and is removed.\<close>

definition remove_jump :: "pulsar \<Rightarrow> table \<Rightarrow> nat \<Rightarrow> pulsar \<times> (error + jump_result)" where
  "remove_jump s ta num =
     (let (m, tb) = delete_jump_and_flags (prefit_model s) (Some (rows ta)) num;
          s1 = s\<lparr>prefit_model := m,
                 all_toas := (all_toas s)\<lparr>table := Some (ta\<lparr>rows := (case tb of None \<Rightarrow> rows ta | Some rs \<Rightarrow> rs)\<rparr>)\<rparr>\<rparr>
      in if fitted s1
         then (case postfit_model s1 of
                 None \<Rightarrow> (s1, Inl AttributeError)
               | Some pm \<Rightarrow>
                   (s1\<lparr>postfit_model := Some (fst (delete_jump_and_flags pm None num))\<rparr>,
                    Inr (Removed (toas_jumped (rows ta) num))))
         else (s1, Inr (Removed (toas_jumped (rows ta) num))))"

text \<open>
  No jump matches: a jump is added, and mirrored into the post-fit model when the
  session is fitted and the two \<open>PhaseJump\<close> components differ.  The components are
  compared as the jump parameters they hold; the newest jump parameter of the pre-fit
  model is added to the post-fit model, unfrozen.
\<close>

definition add_new_jump :: "ext \<Rightarrow> pulsar \<Rightarrow> bool list \<Rightarrow> pulsar \<times> (error + jump_result)" where
  "add_new_jump X s selected =
     (case add_to_prefit X s selected of
        (s1, Inl e) \<Rightarrow> (s1, Inl e)
      | (s1, Inr name) \<Rightarrow>
          if fitted s1
          then (case postfit_model s1 of
                  None \<Rightarrow> (s1, Inl AttributeError)
                | Some pm \<Rightarrow>
                    if ''PhaseJump'' \<notin> set (components pm) then (s1, Inl (KeyError ''PhaseJump''))
                    else if get_jump_param_objects (prefit_model s1) \<noteq> get_jump_param_objects pm
                    then (case rev (get_jump_param_objects (prefit_model s1)) of
                            [] \<Rightarrow> (s1, Inl IndexError)
                          | (n, p) # _ \<Rightarrow>
                              (s1\<lparr>postfit_model := Some (pm\<lparr>params := params pm @ [(n, p\<lparr>frozen := False\<rparr>)]\<rparr>)\<rparr>,
                               Inr (New_jump name)))
                    else (s1, Inr (New_jump name)))
          else (s1, Inr (New_jump name)))"

text \<open>\<open>add_jump(selected)\<close>: jump the selected TOAs, or un-jump them if they are exactly
  the TOAs of a jump.\<close>

definition add_jump :: "ext \<Rightarrow> pulsar \<Rightarrow> bool list \<Rightarrow> pulsar \<times> (error + jump_result)" where
  "add_jump X s selected =
     (if ''PhaseJump'' \<notin> set (components (prefit_model s)) then add_first_jump X s selected
      else
        (let numjumps = get_number_of_jumps (prefit_model s) in
         if numjumps = 0 then (s, Inr Nothing)
         else (case table (all_toas s) of
                 None \<Rightarrow> (s, Inl TypeError)
               | Some ta \<Rightarrow>
                   (case matching_jump (rows ta) selected [1..<numjumps + 1] of
                      Some num \<Rightarrow> remove_jump s ta num
                    | None \<Rightarrow> add_new_jump X s selected))))"




subsection \<open>The commands of a session\<close>

text \<open>The methods that change a session, as commands, and the session a command leaves
  behind, whether it returned or raised.  \<open>resetAll\<close> is not among them.\<close>

datatype command =
  Delete "nat list" "bool list option"
  | Fit "bool list" nat bool
  | Add_jump "bool list"
  | Add_phase_wrap "bool list" real
  | Update_resids
  | Reset_model
  | Reset_TOAs

fun run :: "ext \<Rightarrow> pulsar \<Rightarrow> command \<Rightarrow> pulsar" where
  "run X s (Delete indices selected) = fst (delete_TOAs s indices selected)"
| "run X s (Fit selected iters compute_random) = fst (fit X s selected iters compute_random)"
| "run X s (Add_jump selected) = fst (add_jump X s selected)"
| "run X s (Add_phase_wrap selected phase) = fst (add_phase_wrap X s selected phase)"
| "run X s Update_resids = fst (update_resids s)"
| "run X s Reset_model = fst (reset_model X s)"
| "run X s Reset_TOAs = fst (reset_TOAs X s)"

text \<open>A caller that issues \<open>delete_TOAs\<close> calls one after another, each with its list
  of indices and its mask, and stops at the first exception.\<close>

fun delete_seq :: "pulsar \<Rightarrow> (nat list \<times> bool list option) list \<Rightarrow> error + pulsar" where
  "delete_seq s [] = Inr s"
| "delete_seq s ((indices, selected) # calls) =
     (case delete_TOAs s indices selected of
        (s', Inl e) \<Rightarrow> Inl e
      | (s', Inr _) \<Rightarrow> delete_seq s' calls)"

text \<open>The rows of a TOA set that are alive: none once its table is \<open>None\<close>.\<close>

definition live_rows :: "TOAs \<Rightarrow> toa set" where
  "live_rows t = (case table t of None \<Rightarrow> {} | Some tb \<Rightarrow> set (rows tb))"

section \<open>Example sessions\<close>

text \<open>Small sessions on which the theorems below are instantiated: TOAs of one
  observatory, one per day, with the given indices.\<close>

definition ex_toa :: "nat \<Rightarrow> toa" where
  "ex_toa i = \<lparr>index = i, obs = ''gbt'', tdbld = 55000 + real i, flags = [], cells = []\<rparr>"

definition ex_toas :: "nat list \<Rightarrow> TOAs" where
  "ex_toas idxs =
     \<lparr>table = Some \<lparr>colnames = [''index'', ''obs'', ''tdbld'', ''flags''], rows = map ex_toa idxs\<rparr>\<rparr>"

definition ex_model :: "real \<Rightarrow> model" where
  "ex_model f0 =
     \<lparr>components = [''Spindown''], params = [(Named ''F0'', \<lparr>pvalue = f0, frozen = False\<rparr>)]\<rparr>"

text \<open>An unfitted session with the full set \<open>idxs\<close> and the selected set \<open>sel\<close>.\<close>

definition ex_session :: "nat list \<Rightarrow> nat list \<Rightarrow> pulsar" where
  "ex_session idxs sel =
     \<lparr>prefit_model = ex_model 1, postfit_model = None,
      all_toas = ex_toas idxs, selected_toas = ex_toas sel,
      prefit_resids = Some (Residuals (ex_toas sel) (ex_model 1) None),
      postfit_resids = None, prefit_resids_no_jumps = None,
      deleted = [], fitter = WLS, fitted = False, stashed = None,
      use_pulse_numbers = False, random_resids = None, fake_toas = None\<rparr>"

text \<open>Collaborators for the examples: the fitter is the argument; a TOA's pulse number
  is its index; the files hold the model and ten TOAs.\<close>

definition ex_ext :: "(Fitters \<Rightarrow> TOAs \<Rightarrow> model \<Rightarrow> error + model) \<Rightarrow> ext" where
  "ex_ext ft =
     \<lparr>fit_toas = ft, pulse_number_of = (\<lambda>m r. real (index r)), phase_resids = (\<lambda>r. []),
      now_mjd = 60000, get_model = ex_model 1, get_TOAs = (\<lambda>m. ex_toas [0..<10]),
      new_jump_value = 0, make_fake_toas_uniform = (\<lambda>lo hi n m. ex_toas []),
      calculate_random_models = (\<lambda>t m f. [])\<rparr>"

text \<open>A fitter that fails, and one that returns a refined model.\<close>

definition ex_failing :: ext where
  "ex_failing = ex_ext (\<lambda>k t m. Inl (FitFailure ''singular matrix''))"

definition ex_refining :: ext where
  "ex_refining = ex_ext (\<lambda>k t m. Inr (ex_model 2))"

text \<open>A session that has been fitted: its post-fit model differs from the pre-fit one.\<close>

definition ex_fitted :: pulsar where
  "ex_fitted =
     (ex_session [0, 1, 2] [0, 1, 2])
       \<lparr>postfit_model := Some (ex_model 2),
        postfit_resids := Some (Residuals (ex_toas [0, 1, 2]) (ex_model 2) None),
        fitted := True\<rparr>"

text \<open>The unfitted session of TOAs 0, 1, 2 after one phase wrap on TOAs 0 and 2.\<close>

definition ex_wrapped :: pulsar where
  "ex_wrapped =
     fst (add_phase_wrap ex_refining (ex_session [0, 1, 2] [0, 1, 2]) [True, False, True] 1)"



text \<open>A fitter that shows what it was built on: the \<open>F0\<close> of the model it returns is the
  number of TOAs it was handed.\<close>

definition ex_counting :: ext where
  "ex_counting =
     ex_ext (\<lambda>k t m. Inr (ex_model (case table t of None \<Rightarrow> 0 | Some tb \<Rightarrow> real (length (rows tb)))))"

text \<open>The new session of TOAs 0, 1, 2, in which no TOA is selected, after TOA 0 was
  deleted with the mask that selects nothing.\<close>

definition ex_unselected :: pulsar where
  "ex_unselected =
     fst (delete_TOAs (ex_session [0, 1, 2] [0, 1, 2]) [0] (Some [False, False, False]))"

section \<open>Deletion: what a call keeps and what it returns\<close>

subsection \<open>Masks and the marking loop\<close>

lemma set_take_mask: "set (take_mask xs m) \<subseteq> set xs"
  by (auto simp: take_mask_def dest: set_zip_leftD)

lemma length_take_mask_le: "length (take_mask xs m) \<le> length xs"
proof -
  have "length (filter snd (zip xs m)) \<le> length (zip xs m)"
    by (rule length_filter_le)
  then show ?thesis by (simp add: take_mask_def)
qed

lemma take_mask_nth:
  "p < length xs \<Longrightarrow> p < length m \<Longrightarrow> m ! p \<Longrightarrow> xs ! p \<in> set (take_mask xs m)"
  unfolding take_mask_def
  by (force simp: set_zip)

lemma in_take_maskD:
  "x \<in> set (take_mask xs m) \<Longrightarrow> \<exists>p. p < length xs \<and> p < length m \<and> m ! p \<and> x = xs ! p"
  unfolding take_mask_def
  by (auto simp: set_zip)

lemma distinct_map_take_mask:
  assumes "distinct (map f xs)"
  shows "distinct (map f (take_mask xs m))"
proof -
  have "map (f \<circ> fst) (zip xs m) = map f (take (min (length xs) (length m)) xs)"
    by (simp add: map_fst_zip_take flip: map_map)
  moreover have "distinct (take (min (length xs) (length m)) (map f xs))"
    using assms by (rule distinct_take)
  ultimately have "distinct (map (f \<circ> fst) (zip xs m))"
    by (simp add: take_map)
  then have "distinct (map (f \<circ> fst) (filter snd (zip xs m)))"
    by (rule distinct_map_filter)
  then show ?thesis by (simp add: take_mask_def)
qed

lemma length_mark_deleted [simp]: "length (mark_deleted tb ii m) = length m"
  by (simp add: mark_deleted_def split: list.splits)

lemma length_fold_mark [simp]: "length (fold (mark_deleted tb) d m) = length m"
  by (induction d arbitrary: m) simp_all

lemma length_del_inds_of [simp]: "length (del_inds_of d tb) = length tb"
  by (simp add: del_inds_of_def)

lemma list_update_True_keeps: "p < length m \<Longrightarrow> m ! p \<Longrightarrow> m[q := True] ! p"
  by (cases "q = p") simp_all

lemma mark_deleted_keeps: "p < length m \<Longrightarrow> m ! p \<Longrightarrow> mark_deleted tb ii m ! p"
  by (simp add: mark_deleted_def list_update_True_keeps split: list.splits)

lemma fold_mark_keeps: "p < length m \<Longrightarrow> m ! p \<Longrightarrow> fold (mark_deleted tb) d m ! p"
  by (induction d arbitrary: m) (simp_all add: mark_deleted_keeps)

lemma filter_eq_upt: "p < n \<Longrightarrow> filter (\<lambda>q. q = p) [0..<n] = [p]"
  by (induction n) (auto simp: filter_empty_conv less_Suc_eq)

lemma np_where_unique:
  assumes "distinct (map index tb)" and "p < length tb"
  shows "np_where (map (\<lambda>r. index r = index (tb ! p)) tb) = [p]"
proof -
  have "\<And>q. q \<in> set [0..<length tb] \<Longrightarrow> (index (tb ! q) = index (tb ! p)) = (q = p)"
    using assms by (auto simp: distinct_conv_nth)
  then have "filter (\<lambda>q. index (tb ! q) = index (tb ! p)) [0..<length tb]
           = filter (\<lambda>q. q = p) [0..<length tb]"
    by (intro filter_cong) auto
  also have "\<dots> = [p]"
    using assms(2) by (rule filter_eq_upt)
  finally have "filter (\<lambda>q. index (tb ! q) = index (tb ! p)) [0..<length tb] = [p]" .
  moreover have "np_where (map (\<lambda>r. index r = index (tb ! p)) tb)
      = filter (\<lambda>q. index (tb ! q) = index (tb ! p)) [0..<length tb]"
    unfolding np_where_def by (rule filter_cong) simp_all
  ultimately show ?thesis by simp
qed

lemma fold_mark_hits:
  assumes "distinct (map index tb)" and "p < length tb" and "length m = length tb"
    and "index (tb ! p) \<in> set d"
  shows "fold (mark_deleted tb) d m ! p"
  using assms(3,4)
proof (induction d arbitrary: m)
  case Nil
  then show ?case by simp
next
  case (Cons ii d)
  show ?case
  proof (cases "ii = index (tb ! p)")
    case True
    have "mark_deleted tb ii m ! p"
      using assms(1,2) Cons.prems(1) True
      by (simp add: mark_deleted_def np_where_unique)
    then show ?thesis
      using assms(2) Cons.prems(1) by (simp add: fold_mark_keeps)
  next
    case False
    then have "index (tb ! p) \<in> set d"
      using Cons.prems(2) by auto
    then show ?thesis
      using Cons.IH [of "mark_deleted tb ii m"] Cons.prems(1) by simp
  qed
qed

lemma del_inds_of_hits:
  "distinct (map index tb) \<Longrightarrow> p < length tb \<Longrightarrow> index (tb ! p) \<in> set d
     \<Longrightarrow> del_inds_of d tb ! p"
  by (simp add: del_inds_of_def fold_mark_hits)

lemma take_mask_Not_count:
  "length xs = length bs \<Longrightarrow>
     length (take_mask xs (map Not bs)) + length (filter id bs) = length xs"
  by (induction xs bs rule: list_induct2) (simp_all add: take_mask_def)

text \<open>What a table keeps after \<open>_delete_TOAs\<close>.\<close>

lemma delete_TOAs_table_rows:
  assumes "delete_TOAs_table d t = Some t'"
  shows "set (rows t') \<subseteq> set (rows t)" and "length (rows t') \<le> length (rows t)"
    and "rows t' \<noteq> []" and "colnames t' = colnames t"
proof -
  let ?keep = "take_mask (rows t) (map Not (del_inds_of d (rows t)))"
  from assms have lt: "length (filter id (del_inds_of d (rows t))) < length (rows t)"
    and t': "t' = group_by_obs (t\<lparr>rows := ?keep\<rparr>)"
    by (auto simp: delete_TOAs_table_def Let_def split: if_splits)
  show "set (rows t') \<subseteq> set (rows t)"
    by (simp add: t' group_by_obs_def set_take_mask)
  show "length (rows t') \<le> length (rows t)"
    by (simp add: t' group_by_obs_def length_take_mask_le)
  show "colnames t' = colnames t"
    by (simp add: t' group_by_obs_def)
  have "length ?keep + length (filter id (del_inds_of d (rows t))) = length (rows t)"
    by (rule take_mask_Not_count) simp
  with lt have "0 < length ?keep" by linarith
  moreover have "length (rows t') = length ?keep"
    by (simp add: t' group_by_obs_def)
  ultimately show "rows t' \<noteq> []"
    by auto
qed

lemma delete_TOAs_table_distinct:
  assumes "delete_TOAs_table d t = Some t'" and "distinct (map index (rows t))"
  shows "distinct (map index (rows t'))" and "\<forall>r\<in>set (rows t'). index r \<notin> set d"
proof -
  let ?keep = "take_mask (rows t) (map Not (del_inds_of d (rows t)))"
  from assms(1) have t': "rows t' = sort_key obs ?keep"
    by (auto simp: delete_TOAs_table_def Let_def group_by_obs_def split: if_splits)
  have "distinct (map index ?keep)"
    using assms(2) by (rule distinct_map_take_mask)
  then show "distinct (map index (rows t'))"
    by (simp add: t' distinct_map)
  show "\<forall>r\<in>set (rows t'). index r \<notin> set d"
  proof
    fix r assume "r \<in> set (rows t')"
    then have "r \<in> set ?keep" by (simp add: t')
    then obtain p where p: "p < length (rows t)" "\<not> del_inds_of d (rows t) ! p" "r = rows t ! p"
      by (auto dest!: in_take_maskD)
    then show "index r \<notin> set d"
      using del_inds_of_hits [OF assms(2), of p d] by auto
  qed
qed

subsection \<open>One call of \<open>delete_TOAs\<close>\<close>

lemma set_pyset_union [simp]: "set (pyset_union d indices) = set d \<union> set indices"
  by (auto simp: pyset_union_def)

lemma delete_stashed_frame:
  assumes "delete_stashed s = Inr s'"
  shows "all_toas s' = all_toas s" "selected_toas s' = selected_toas s" "deleted s' = deleted s"
    "use_pulse_numbers s' = use_pulse_numbers s"
  using assms
  by (auto simp: delete_stashed_def split: option.splits if_splits)

lemma table_getitem_rows:
  "table_getitem t m = Inr tb \<Longrightarrow> set (rows tb) \<subseteq> set (rows t)"
  using set_take_mask [of "rows t" m]
  by (auto simp: table_getitem_def split: if_splits)

lemma reselect_None:
  assumes "reselect s indices selected = (s', Inr m)" and "table (selected_toas s) = None"
  shows "\<exists>ta. table (all_toas s) = Some ta \<and> m = replicate (length (rows ta)) False"
    and "s' = s\<lparr>selected_toas := all_toas s\<rparr>"
  using assms
  by (auto simp: reselect_def Let_def ntoas_def split: option.splits sum.splits)

lemma reselect_Some:
  assumes "reselect s indices selected = (s', Inr m)" and "table (selected_toas s) = Some ts"
  shows "\<exists>ta sel tb. table (all_toas s) = Some ta \<and> selected = Some sel
           \<and> m = newselected ta sel indices \<and> table_getitem ta m = Inr tb
           \<and> s' = s\<lparr>selected_toas := (selected_toas s)\<lparr>table := Some tb\<rparr>\<rparr>"
  using assms
  by (auto simp: reselect_def Let_def split: option.splits sum.splits)

text \<open>The steps of a call that returns.\<close>

lemma delete_TOAs_steps:
  assumes "delete_TOAs s indices selected = (s', Inr m)"
  shows "\<exists>st ta s3.
           table (all_toas s) = Some ta
         \<and> reselect (s\<lparr>deleted := pyset_union (deleted s) indices, selected_toas := st,
                 all_toas := (all_toas s)\<lparr>table := delete_TOAs_table (pyset_union (deleted s) indices) ta\<rparr>\<rparr>)
               indices selected = (s3, Inr m)
         \<and> delete_stashed s3 = Inr s'"
  using assms
  by (auto simp: delete_TOAs_def Let_def delete_from_def
           split: sum.splits option.splits prod.splits if_splits)

lemma newselected_all:
  assumes "\<forall>r\<in>set (rows t). index r \<notin> set indices"
  shows "newselected t sel indices = take (length (rows t)) sel"
proof -
  have "filter (\<lambda>(idx, sel). idx \<notin> set indices) (zip (map index (rows t)) sel)
      = zip (map index (rows t)) sel"
    using assms by (auto simp: filter_id_conv dest!: set_zip_leftD)
  then show ?thesis
    by (simp add: newselected_def map_snd_zip_take min_def)
qed

text \<open>What one returning call leaves behind.\<close>

lemma delete_TOAs_returns:
  assumes ret: "delete_TOAs s indices selected = (s', Inr m)"
    and ta: "table (all_toas s) = Some ta" and dist: "distinct (map index (rows ta))"
  shows "\<exists>ta' ts'. table (all_toas s') = Some ta' \<and> table (selected_toas s') = Some ts'
           \<and> set (rows ta') \<subseteq> set (rows ta) \<and> set (rows ts') \<subseteq> set (rows ta')
           \<and> distinct (map index (rows ta'))
           \<and> (\<forall>r\<in>set (rows ta'). index r \<notin> set (deleted s'))
           \<and> length (rows ta') \<le> length (rows ta)
           \<and> (case selected of
                 None \<Rightarrow> m = replicate (length (rows ta')) False
               | Some sel \<Rightarrow> m = replicate (length (rows ta')) False
                     \<or> m = take (length (rows ta')) sel)"
    and "set (deleted s') = set (deleted s) \<union> set indices"
proof -
  let ?D = "pyset_union (deleted s) indices"
  from delete_TOAs_steps [OF ret] ta obtain st s3 where
    re: "reselect (s\<lparr>deleted := ?D, selected_toas := st,
             all_toas := (all_toas s)\<lparr>table := delete_TOAs_table ?D ta\<rparr>\<rparr>) indices selected = (s3, Inr m)"
    and stash: "delete_stashed s3 = Inr s'"
    by auto
  let ?s2 = "s\<lparr>deleted := ?D, selected_toas := st,
             all_toas := (all_toas s)\<lparr>table := delete_TOAs_table ?D ta\<rparr>\<rparr>"
  have fr: "all_toas s' = all_toas s3" "selected_toas s' = selected_toas s3" "deleted s' = deleted s3"
    using delete_stashed_frame [OF stash] by simp_all
  show "set (deleted s') = set (deleted s) \<union> set indices"
  proof (cases "table (selected_toas ?s2)")
    case None
    from reselect_None(2) [OF re None] show ?thesis by (simp add: fr)
  next
    case (Some ts)
    from reselect_Some [OF re Some] show ?thesis by (auto simp: fr)
  qed
  show "\<exists>ta' ts'. table (all_toas s') = Some ta' \<and> table (selected_toas s') = Some ts'
           \<and> set (rows ta') \<subseteq> set (rows ta) \<and> set (rows ts') \<subseteq> set (rows ta')
           \<and> distinct (map index (rows ta'))
           \<and> (\<forall>r\<in>set (rows ta'). index r \<notin> set (deleted s'))
           \<and> length (rows ta') \<le> length (rows ta)
           \<and> (case selected of
                 None \<Rightarrow> m = replicate (length (rows ta')) False
               | Some sel \<Rightarrow> m = replicate (length (rows ta')) False
                     \<or> m = take (length (rows ta')) sel)"
  proof (cases "table (selected_toas ?s2)")
    case None
    from reselect_None [OF re None] obtain ta' where
      ta': "delete_TOAs_table ?D ta = Some ta'" and m: "m = replicate (length (rows ta')) False"
      and s3: "s3 = ?s2\<lparr>selected_toas := all_toas ?s2\<rparr>"
      by auto
    have "table (all_toas s') = Some ta'" "table (selected_toas s') = Some ta'" "deleted s' = ?D"
      using ta' by (simp_all add: fr s3)
    then show ?thesis
      using delete_TOAs_table_rows [OF ta'] delete_TOAs_table_distinct [OF ta' dist] m
      by (auto split: option.splits)
  next
    case (Some ts)
    from reselect_Some [OF re Some] obtain ta' sel tb where
      ta': "delete_TOAs_table ?D ta = Some ta'" and sel: "selected = Some sel"
      and m: "m = newselected ta' sel indices" and tb: "table_getitem ta' m = Inr tb"
      and s3: "s3 = ?s2\<lparr>selected_toas := (selected_toas ?s2)\<lparr>table := Some tb\<rparr>\<rparr>"
      by auto
    have nd: "\<forall>r\<in>set (rows ta'). index r \<notin> set ?D"
      using delete_TOAs_table_distinct(2) [OF ta' dist] .
    then have "\<forall>r\<in>set (rows ta'). index r \<notin> set indices" by simp
    then have m': "m = take (length (rows ta')) sel"
      using m by (simp add: newselected_all)
    have "table (all_toas s') = Some ta'" "table (selected_toas s') = Some tb" "deleted s' = ?D"
      using ta' by (simp_all add: fr s3)
    then show ?thesis
      using delete_TOAs_table_rows [OF ta'] delete_TOAs_table_distinct(1) [OF ta' dist] nd
        table_getitem_rows [OF tb] m' sel
      by auto
  qed
qed

subsection \<open>Sequences of calls, and the returned mask\<close>

lemma delete_seq_inv:
  assumes "delete_seq s calls = Inr s'"
    and "table (all_toas s) = Some ta" and "distinct (map index (rows ta))"
  shows "\<exists>ta'. table (all_toas s') = Some ta' \<and> set (rows ta') \<subseteq> set (rows ta)
           \<and> distinct (map index (rows ta'))
           \<and> set (deleted s) \<union> (\<Union>c\<in>set calls. set (fst c)) \<subseteq> set (deleted s')
           \<and> (calls \<noteq> [] \<longrightarrow>
                 (\<forall>r\<in>set (rows ta'). index r \<notin> set (deleted s'))
               \<and> live_rows (selected_toas s') \<subseteq> set (rows ta'))"
  using assms
proof (induction calls arbitrary: s ta)
  case Nil
  then show ?case by simp
next
  case (Cons c calls)
  obtain indices selected where c: "c = (indices, selected)" by (cases c)
  from Cons.prems(1) obtain s1 m where
    one: "delete_TOAs s indices selected = (s1, Inr m)" and rest: "delete_seq s1 calls = Inr s'"
    by (auto simp: c split: prod.splits sum.splits)
  from delete_TOAs_returns [OF one Cons.prems(2,3)] obtain ta1 ts1 where
    s1: "table (all_toas s1) = Some ta1" "table (selected_toas s1) = Some ts1"
      "set (rows ta1) \<subseteq> set (rows ta)" "set (rows ts1) \<subseteq> set (rows ta1)"
      "distinct (map index (rows ta1))" "\<forall>r\<in>set (rows ta1). index r \<notin> set (deleted s1)"
    and d1: "set (deleted s1) = set (deleted s) \<union> set indices"
    by blast
  note IH = Cons.IH [OF rest s1(1) s1(5)]
  show ?case
  proof (cases "calls = []")
    case True
    with rest have "s' = s1" by simp
    then show ?thesis
      using s1 d1 True by (auto simp: c live_rows_def)
  next
    case False
    with IH obtain ta' where
      "table (all_toas s') = Some ta'" "set (rows ta') \<subseteq> set (rows ta1)"
      "distinct (map index (rows ta'))"
      "set (deleted s1) \<union> (\<Union>c\<in>set calls. set (fst c)) \<subseteq> set (deleted s')"
      "(\<forall>r\<in>set (rows ta'). index r \<notin> set (deleted s'))
         \<and> live_rows (selected_toas s') \<subseteq> set (rows ta')"
      by auto
    then show ?thesis
      using s1(3) d1 by (auto simp: c)
  qed
qed

text \<open>
  Claim C5 (identity stability).  For every sequence of \<open>delete_TOAs\<close> calls that
  return, on a session whose full TOA set has pairwise different indices: every TOA
  left in the full set is a row of the full set before the calls, unchanged, and with
  it its index; every TOA of the selected set is such a row too (or, when no call was
  made, a row of the selected set before); and no index handed to any of the calls
  is the index of a TOA of the full or of the selected set.
\<close>

theorem delete_seq_identity_stable:
  assumes "delete_seq s calls = Inr s'"
    and "table (all_toas s) = Some ta" and "distinct (map index (rows ta))"
  shows "live_rows (all_toas s') \<subseteq> live_rows (all_toas s)
       \<and> live_rows (selected_toas s') \<subseteq> live_rows (all_toas s) \<union> live_rows (selected_toas s)
       \<and> (\<forall>c\<in>set calls. \<forall>i\<in>set (fst c).
            i \<notin> index ` (live_rows (all_toas s') \<union> live_rows (selected_toas s')))"
proof (cases calls)
  case Nil
  with assms(1) show ?thesis by simp
next
  case (Cons c calls')
  from delete_seq_inv [OF assms] obtain ta' where
    "table (all_toas s') = Some ta'" "set (rows ta') \<subseteq> set (rows ta)"
    "(\<Union>c\<in>set calls. set (fst c)) \<subseteq> set (deleted s')"
    "\<forall>r\<in>set (rows ta'). index r \<notin> set (deleted s')"
    "live_rows (selected_toas s') \<subseteq> set (rows ta')"
    using Cons by auto
  then show ?thesis
    using assms(2) by (fastforce simp: live_rows_def)
qed

theorem delete_seq_identity_stable_witness:
  "\<not> isl (delete_seq (ex_session [0..<10] [0..<10])
            [([3, 7], Some (replicate 10 True)), ([0], Some (replicate 8 True))])
   \<and> 3 \<notin> index ` (live_rows (all_toas (projr (delete_seq (ex_session [0..<10] [0..<10])
            [([3, 7], Some (replicate 10 True)), ([0], Some (replicate 8 True))])))
        \<union> live_rows (selected_toas (projr (delete_seq (ex_session [0..<10] [0..<10])
            [([3, 7], Some (replicate 10 True)), ([0], Some (replicate 8 True))]))))
   \<and> map index (rows (the (table (all_toas (projr (delete_seq (ex_session [0..<10] [0..<10])
            [([3, 7], Some (replicate 10 True)), ([0], Some (replicate 8 True))]))))))
       = [1, 2, 4, 5, 6, 8, 9]"
proof -
  let ?s = "ex_session [0..<10] [0..<10]"
  let ?calls = "[([3, 7], Some (replicate 10 True)), ([0 :: nat], Some (replicate 8 True))]"
  let ?ta = "\<lparr>colnames = [''index'', ''obs'', ''tdbld'', ''flags''], rows = map ex_toa [0..<10]\<rparr>"
  define s' where "s' = projr (delete_seq ?s ?calls)"
  have ran: "\<not> isl (delete_seq ?s ?calls)"
    by code_simp
  then have ret: "delete_seq ?s ?calls = Inr s'"
    unfolding s'_def by (cases "delete_seq ?s ?calls") simp_all
  have ta: "table (all_toas ?s) = Some ?ta"
    by (simp add: ex_session_def ex_toas_def)
  have dist: "distinct (map index (rows ?ta))"
    by code_simp
  have idx: "map index (rows (the (table (all_toas (projr (delete_seq ?s ?calls))))))
      = [1, 2, 4, 5, 6, 8, 9]"
    by code_simp
  from delete_seq_identity_stable [OF ret ta dist]
  have "\<forall>c\<in>set ?calls. \<forall>i\<in>set (fst c).
          i \<notin> index ` (live_rows (all_toas s') \<union> live_rows (selected_toas s'))"
    by blast
  then have "3 \<notin> index ` (live_rows (all_toas s') \<union> live_rows (selected_toas s'))"
    by simp
  with ran idx show ?thesis
    unfolding s'_def by blast
qed

text \<open>
  Claim C2 (the mask \<open>delete_TOAs\<close> returns).  The source pairs the index column of the
  full set after the deletion with the mask of before the deletion.  On the full set
  0, 1, 2, 3 with TOAs 1 and 3 selected, deleting TOA 0 returns the mask
  False, True, False over the full set 1, 2, 3 and leaves TOA 2 as the selected set:
  the mask is not True at the surviving selected TOAs 1 and 3.
\<close>

theorem delete_TOAs_mask_misaligned:
  "snd (delete_TOAs (ex_session [0, 1, 2, 3] [1, 3]) [0] (Some [False, True, False, True]))
     = Inr [False, True, False]
   \<and> map_option (map index \<circ> rows)
       (table (all_toas (fst (delete_TOAs (ex_session [0, 1, 2, 3] [1, 3]) [0]
          (Some [False, True, False, True]))))) = Some [1, 2, 3]
   \<and> map_option (map index \<circ> rows)
       (table (selected_toas (fst (delete_TOAs (ex_session [0, 1, 2, 3] [1, 3]) [0]
          (Some [False, True, False, True]))))) = Some [2]"
  by code_simp

text \<open>
  Claim C6 (selection mask length).  After a \<open>delete_TOAs\<close> call that returns, on a
  session whose full TOA set has pairwise different indices and with a mask as long as
  the full set, the returned mask is as long as the full TOA set now is.
\<close>

theorem delete_TOAs_mask_length:
  assumes "delete_TOAs s indices selected = (s', Inr m)"
    and "table (all_toas s) = Some ta" and "distinct (map index (rows ta))"
    and "\<forall>sel. selected = Some sel \<longrightarrow> length sel = length (rows ta)"
  shows "ntoas (all_toas s') = Inr (length m)"
proof -
  from delete_TOAs_returns(1) [OF assms(1-3)] obtain ta' where
    ta': "table (all_toas s') = Some ta'" "length (rows ta') \<le> length (rows ta)"
    and m: "case selected of
                 None \<Rightarrow> m = replicate (length (rows ta')) False
               | Some sel \<Rightarrow> m = replicate (length (rows ta')) False
                     \<or> m = take (length (rows ta')) sel"
    by blast
  have "length m = length (rows ta')"
    using m ta'(2) assms(4) by (auto split: option.splits)
  then show ?thesis
    by (simp add: ntoas_def ta')
qed

theorem delete_TOAs_mask_length_witness:
  "delete_TOAs (ex_session [0..<10] [0..<10]) [3, 7] (Some (replicate 10 True))
     = (fst (delete_TOAs (ex_session [0..<10] [0..<10]) [3, 7] (Some (replicate 10 True))),
        Inr (replicate 8 True))
   \<and> ntoas (all_toas (fst (delete_TOAs (ex_session [0..<10] [0..<10]) [3, 7]
          (Some (replicate 10 True))))) = Inr 8
   \<and> map index (rows (the (table (all_toas (fst (delete_TOAs (ex_session [0..<10] [0..<10]) [3, 7]
          (Some (replicate 10 True)))))))) = [0, 1, 2, 4, 5, 6, 8, 9]"
proof -
  let ?s = "ex_session [0..<10] [0..<10]"
  let ?ta = "\<lparr>colnames = [''index'', ''obs'', ''tdbld'', ''flags''], rows = map ex_toa [0..<10]\<rparr>"
  have r: "snd (delete_TOAs ?s [3, 7] (Some (replicate 10 True))) = Inr (replicate 8 True)"
    by code_simp
  then have ret: "delete_TOAs ?s [3, 7] (Some (replicate 10 True))
      = (fst (delete_TOAs ?s [3, 7] (Some (replicate 10 True))), Inr (replicate 8 True))"
    by (metis prod.collapse)
  have ta: "table (all_toas ?s) = Some ?ta"
    by (simp add: ex_session_def ex_toas_def)
  have dist: "distinct (map index (rows ?ta))"
    by code_simp
  have len: "\<forall>sel. Some (replicate 10 True) = Some sel \<longrightarrow> length sel = length (rows ?ta)"
    by auto
  have idx: "map index (rows (the (table (all_toas (fst (delete_TOAs ?s [3, 7]
          (Some (replicate 10 True)))))))) = [0, 1, 2, 4, 5, 6, 8, 9]"
    by code_simp
  from delete_TOAs_mask_length [OF ret ta dist len] ret idx show ?thesis
    by simp
qed

section \<open>The synthetic baseline of the random models\<close>

text \<open>
  Claim C7 (regime selection).  For every time span of the selected TOAs, the edge
  factors and the number of synthetic points are those of the threshold table: under
  30 days (4, 400), under 90 (2, 300), under 200 (1, 300), under 400 (0.5, 200),
  otherwise (1.0, 250); the left and the right factor are the same; a span of 20 days
  gives factors 4 and 400 points; and when the test against "now minus 40 days" does
  not fire, the baseline runs from the first selected TOA minus factor times span to
  the last one plus factor times span.
\<close>

theorem edges_npoints_regimes:
  "(spanMJDs < 30 \<longrightarrow> edges_npoints spanMJDs = (4, 4, 400))
   \<and> (30 \<le> spanMJDs \<and> spanMJDs < 90 \<longrightarrow> edges_npoints spanMJDs = (2, 2, 300))
   \<and> (90 \<le> spanMJDs \<and> spanMJDs < 200 \<longrightarrow> edges_npoints spanMJDs = (1, 1, 300))
   \<and> (200 \<le> spanMJDs \<and> spanMJDs < 400 \<longrightarrow> edges_npoints spanMJDs = (1 / 2, 1 / 2, 200))
   \<and> (400 \<le> spanMJDs \<longrightarrow> edges_npoints spanMJDs = (1, 1, 250))
   \<and> fst (edges_npoints spanMJDs) = fst (snd (edges_npoints spanMJDs))
   \<and> edges_npoints 20 = (4, 4, 400)
   \<and> (maxMJD - minMJD = spanMJDs
        \<and> maxMJD + spanMJDs * fst (edges_npoints spanMJDs) \<le> now - 40 \<longrightarrow>
        fake_baseline now minMJD maxMJD =
          (minMJD - spanMJDs * fst (edges_npoints spanMJDs),
           maxMJD + spanMJDs * fst (edges_npoints spanMJDs),
           snd (snd (edges_npoints spanMJDs))))"
  by (auto simp: edges_npoints_def fake_baseline_def cap_redge_def Let_def)

theorem edges_npoints_regimes_witness:
  "edges_npoints 20 = (4, 4, 400) \<and> edges_npoints 30 = (2, 2, 300)
   \<and> edges_npoints 199 = (1, 1, 300) \<and> edges_npoints 200 = (1 / 2, 1 / 2, 200)
   \<and> edges_npoints 400 = (1, 1, 250)
   \<and> fake_baseline 60000 55000 55020 = (54920, 55100, 400)"
  using edges_npoints_regimes [of 20 55020 55000 60000] edges_npoints_regimes [of 30 0 0 0]
    edges_npoints_regimes [of 199 0 0 0] edges_npoints_regimes [of 200 0 0 0]
    edges_npoints_regimes [of 400 0 0 0]
  by simp

text \<open>
  Claim C8 (forward-extension cap).  As stated, the claim fails: with the newest selected
  TOA 10 days old, the right factor is clamped to 0 and the baseline ends at that TOA,
  30 days past "now minus 40 days".
\<close>

theorem fake_baseline_exceeds_nowish:
  "\<not> fst (snd (fake_baseline 60000 59950 59990)) \<le> 60000 - 40"
  by (simp add: fake_baseline_def edges_npoints_def cap_redge_def Let_def)

text \<open>
  Claim C8, amended.  The right edge factor after the cap is never negative, and the
  synthetic baseline ends no later than the later of "now minus 40 days" and the
  newest selected TOA; it ends no later than "now minus 40 days" whenever the newest
  selected TOA is at least 40 days old.
\<close>

theorem fake_baseline_capped:
  assumes "minMJD \<le> maxMJD"
  shows "0 \<le> cap_redge now maxMJD (maxMJD - minMJD) (fst (edges_npoints (maxMJD - minMJD)))
       \<and> fst (snd (fake_baseline now minMJD maxMJD)) =
           maxMJD + (maxMJD - minMJD)
              * cap_redge now maxMJD (maxMJD - minMJD) (fst (edges_npoints (maxMJD - minMJD)))
       \<and> fst (snd (fake_baseline now minMJD maxMJD)) \<le> max (now - 40) maxMJD
       \<and> (maxMJD \<le> now - 40 \<longrightarrow> fst (snd (fake_baseline now minMJD maxMJD)) \<le> now - 40)"
proof -
  let ?span = "maxMJD - minMJD"
  let ?e = "fst (edges_npoints ?span)"
  let ?c = "cap_redge now maxMJD ?span ?e"
  have e: "0 \<le> ?e" by (simp add: edges_npoints_def)
  have c0: "0 \<le> ?c" using e by (simp add: cap_redge_def Let_def)
  have hi: "fst (snd (fake_baseline now minMJD maxMJD)) = maxMJD + ?span * ?c"
    by (simp add: fake_baseline_def Let_def split: prod.splits)
  have le: "maxMJD + ?span * ?c \<le> max (now - 40) maxMJD"
  proof (cases "maxMJD + ?span * ?e > now - 40")
    case False
    then show ?thesis by (simp add: cap_redge_def Let_def)
  next
    case True
    show ?thesis
    proof (cases "?span = 0")
      case True
      then show ?thesis by simp
    next
      case False
      with assms have pos: "0 < ?span" by simp
      have c: "?c = max ((now - 40 - maxMJD) / ?span) 0"
        using True False by (simp add: cap_redge_def Let_def)
      show ?thesis
      proof (cases "0 \<le> (now - 40 - maxMJD) / ?span")
        case True
        then have "?span * ?c = now - 40 - maxMJD"
          using pos c by (simp add: max_def)
        then show ?thesis by simp
      next
        case False
        then have "?c = 0" using c by (simp add: max_def)
        then show ?thesis by simp
      qed
    qed
  qed
  from c0 hi le show ?thesis by auto
qed

theorem fake_baseline_capped_witness:
  "(59950::real) \<le> 59990
   \<and> cap_redge 60000 59990 (59990 - 59950) (fst (edges_npoints (59990 - 59950))) = 0
   \<and> fst (snd (fake_baseline 60000 59950 59990)) = 59990
   \<and> fst (snd (fake_baseline 60000 59900 59940)) = 59960"
proof -
  have h: "(59950::real) \<le> 59990" by simp
  have a: "cap_redge 60000 59990 (59990 - 59950) (fst (edges_npoints (59990 - 59950))) = 0"
    by (simp add: edges_npoints_def cap_redge_def Let_def)
  have b: "fst (snd (fake_baseline 60000 59900 59940)) = 59960"
    by (simp add: fake_baseline_def edges_npoints_def cap_redge_def Let_def)
  from fake_baseline_capped [OF h, of 60000] a b show ?thesis
    by simp
qed

section \<open>Fitting\<close>

lemma and_then_Inl [simp]: "and_then (s, Inl e) f = (s, Inl e)"
  by (simp add: and_then_def)

lemma and_then_Inr [simp]: "and_then (s, Inr x) f = f s"
  by (simp add: and_then_def)

text \<open>\<open>fit\<close> reads neither its mask nor \<open>iters\<close> after the first statement.\<close>

lemma fit_ignores_mask:
  "fit X s selected iters compute_random = fit X s selected' iters' compute_random"
  by (simp add: fit_def)

text \<open>
  Claim C3 (empty selection).  The comment of the first statement of \<open>fit\<close> reads "Select
  all the TOAs if none are explicitly set", and the statement inverts a mask that selects
  nothing; the inverted mask is not used, and the fitter is built on the selected set as
  the session has it.  In the new session of TOAs 0, 1, 2, deleting TOA 0 with no TOA
  selected returns the mask that selects nothing and leaves the selected set empty.  The
  fit called with that mask runs the fitter on no TOA, where the fit with every TOA
  selected runs it on the TOAs 1 and 2 of the full set; the post-fit models and the
  post-fit residuals over the full set differ.
\<close>

theorem fit_all_False_fits_selected_set:
  "snd (delete_TOAs (ex_session [0, 1, 2] [0, 1, 2]) [0] (Some [False, False, False]))
       = Inr [False, False]
   \<and> map_option (map index \<circ> rows) (table (all_toas ex_unselected)) = Some [1, 2]
   \<and> map_option (map index \<circ> rows) (table (selected_toas ex_unselected)) = Some []
   \<and> snd (fit ex_counting ex_unselected [False, False] 1 False) = Inr ()
   \<and> postfit_model (fst (fit ex_counting ex_unselected [False, False] 1 False))
       = Some (ex_model 0)
   \<and> snd (fit ex_counting (ex_unselected\<lparr>selected_toas := all_toas ex_unselected\<rparr>)
            [True, True] 1 False) = Inr ()
   \<and> postfit_model (fst (fit ex_counting (ex_unselected\<lparr>selected_toas := all_toas ex_unselected\<rparr>)
            [True, True] 1 False))
       = Some (ex_model 2)
   \<and> postfit_resids (fst (fit ex_counting ex_unselected [False, False] 1 False))
       \<noteq> postfit_resids (fst (fit ex_counting (ex_unselected\<lparr>selected_toas := all_toas ex_unselected\<rparr>)
            [True, True] 1 False))"
  by code_simp

text \<open>
  Claim C1 (failure of the fitter).  As stated, the claim fails: on a fitted session the
  post-fit model is promoted before the fitter runs, and a fitter that raises leaves the
  promoted model as the pre-fit model.
\<close>

theorem fit_failure_loses_prefit:
  "snd (fit ex_failing ex_fitted [True, True, True] 1 False) = Inl (FitFailure ''singular matrix'')
   \<and> prefit_model (fst (fit ex_failing ex_fitted [True, True, True] 1 False))
       \<noteq> prefit_model ex_fitted"
  by (simp add: fit_def promote_def run_fitter_def ex_failing_def ex_ext_def ex_fitted_def
        ex_session_def ex_model_def)

text \<open>
  Claim C1, amended.  When the fitter raises, \<open>fit\<close> raises the same exception.  On a
  session that was not fitted the session is left as it was.  On a fitted session the
  pre-fit model and the pre-fit residuals are left at the post-fit model and residuals
  of before the call, and everything else (the fitted flag, the post-fit model and
  residuals, both TOA sets with their pulse-number columns) is left as it was.
\<close>

theorem fit_failure_state:
  "(\<not> fitted s \<and> prefit_resids s \<noteq> None
      \<and> fit_toas X (fitter s) (selected_toas s) (prefit_model s) = Inl e
      \<longrightarrow> fit X s selected iters compute_random = (s, Inl e))
   \<and> (fitted s \<and> postfit_model s = Some pm \<and> postfit_resids s = Some pr
      \<and> fit_toas X (fitter s) (selected_toas s) pm = Inl e
      \<longrightarrow> fit X s selected iters compute_random
            = (s\<lparr>prefit_model := pm, prefit_resids := Some pr\<rparr>, Inl e))"
  by (auto simp: fit_def promote_def run_fitter_def)

theorem fit_failure_state_witness:
  "fit ex_failing (ex_session [0, 1, 2] [0, 1, 2]) [True, True, True] 1 False
     = (ex_session [0, 1, 2] [0, 1, 2], Inl (FitFailure ''singular matrix''))
   \<and> fit ex_failing ex_fitted [True, True, True] 1 False
     = (ex_fitted\<lparr>prefit_model := ex_model 2,
          prefit_resids := Some (Residuals (ex_toas [0, 1, 2]) (ex_model 2) None)\<rparr>,
        Inl (FitFailure ''singular matrix''))"
proof -
  have a: "\<not> fitted (ex_session [0, 1, 2] [0, 1, 2])
      \<and> prefit_resids (ex_session [0, 1, 2] [0, 1, 2]) \<noteq> None
      \<and> fit_toas ex_failing (fitter (ex_session [0, 1, 2] [0, 1, 2]))
          (selected_toas (ex_session [0, 1, 2] [0, 1, 2]))
          (prefit_model (ex_session [0, 1, 2] [0, 1, 2])) = Inl (FitFailure ''singular matrix'')"
    by (simp add: ex_session_def ex_failing_def ex_ext_def)
  have b: "fitted ex_fitted \<and> postfit_model ex_fitted = Some (ex_model 2)
      \<and> postfit_resids ex_fitted = Some (Residuals (ex_toas [0, 1, 2]) (ex_model 2) None)
      \<and> fit_toas ex_failing (fitter ex_fitted) (selected_toas ex_fitted) (ex_model 2)
          = Inl (FitFailure ''singular matrix'')"
    by (simp add: ex_fitted_def ex_failing_def ex_ext_def)
  from fit_failure_state [where s = "ex_session [0, 1, 2] [0, 1, 2]" and X = ex_failing
      and e = "FitFailure ''singular matrix''" and selected = "[True, True, True]"
      and iters = 1 and compute_random = False] a
    fit_failure_state [where s = ex_fitted and X = ex_failing
      and e = "FitFailure ''singular matrix''" and pm = "ex_model 2"
      and pr = "Residuals (ex_toas [0, 1, 2]) (ex_model 2) None"
      and selected = "[True, True, True]" and iters = 1 and compute_random = False] b
  show ?thesis by blast
qed

lemma rows_set_column:
  "length vs = length (rows t) \<Longrightarrow>
     rows (set_column name vs t)
       = map (\<lambda>i. (rows t ! i)\<lparr>cells := AList.update name (vs ! i) (cells (rows t ! i))\<rparr>)
           [0..<length (rows t)]"
  by (auto simp: set_column_def intro!: nth_equalityI)

lemma length_rows_set_column [simp]:
  "length vs = length (rows t) \<Longrightarrow> length (rows (set_column name vs t)) = length (rows t)"
  by (simp add: set_column_def)

lemma colnames_set_column:
  "set (colnames (set_column name vs t)) = insert name (set (colnames t))"
  by (auto simp: set_column_def)

lemma column_set_column_same:
  "length vs = length (rows t) \<Longrightarrow> column name (set_column name vs t) = vs"
  by (auto simp: column_def cell_def rows_set_column update_conv' intro!: nth_equalityI)

lemma column_set_column_other:
  "length vs = length (rows t) \<Longrightarrow> name' \<noteq> name \<Longrightarrow>
     column name' (set_column name vs t) = column name' t"
  by (auto simp: column_def cell_def rows_set_column update_conv' intro!: nth_equalityI)

lemma zero_column_Some:
  assumes "zero_column name t = Inr t'"
  shows "\<exists>tb. table t = Some tb
           \<and> table t' = Some (set_column name (replicate (length (rows tb)) 0) tb)"
  using assms by (auto simp: zero_column_def split: option.splits)

lemma compute_pulse_numbers_Some:
  assumes "compute_pulse_numbers X m t = Inr t'"
  shows "\<exists>tb. table t = Some tb
           \<and> table t' = Some (set_column ''pulse_number'' (map (pulse_number_of X m) (rows tb)) tb)"
  using assms by (auto simp: compute_pulse_numbers_def split: option.splits)

lemma compute_both_Inr:
  assumes "compute_both X m s = (s', Inr u)"
  shows "\<exists>al st. compute_pulse_numbers X m (all_toas s) = Inr al
           \<and> compute_pulse_numbers X m (selected_toas s) = Inr st
           \<and> s' = s\<lparr>all_toas := al, selected_toas := st\<rparr>"
  using assms by (auto simp: compute_both_def split: sum.splits)

lemma random_models_frame:
  assumes "random_models X fm s = (s', r)"
  shows "all_toas s' = all_toas s" "selected_toas s' = selected_toas s"
    "postfit_resids s' = postfit_resids s" "use_pulse_numbers s' = use_pulse_numbers s"
    "prefit_model s' = prefit_model s" "postfit_model s' = postfit_model s"
    "fitted s' = fitted s" "prefit_resids s' = prefit_resids s"
  using assms
  by (auto simp: random_models_def Let_def split: option.splits sum.splits if_splits prod.splits)


lemma promote_frame:
  assumes "promote s = (s1, r)"
  shows "all_toas s1 = all_toas s" "selected_toas s1 = selected_toas s"
    "use_pulse_numbers s1 = use_pulse_numbers s" "fitted s1 = fitted s"
  using assms by (auto simp: promote_def split: if_splits option.splits)

lemma after_fit_Inr:
  assumes "after_fit X fm s = (s', Inr u)"
  shows "\<exists>ta ts. table (all_toas s) = Some ta \<and> table (selected_toas s) = Some ts
      \<and> table (all_toas s') = Some (set_column ''pulse_number''
            (map (pulse_number_of X fm) (rows (set_column ''delta_pulse_numbers''
                (replicate (length (rows ta)) 0) ta)))
            (set_column ''delta_pulse_numbers'' (replicate (length (rows ta)) 0) ta))
      \<and> table (selected_toas s') = Some (set_column ''pulse_number''
            (map (pulse_number_of X fm) (rows (set_column ''delta_pulse_number''
                (replicate (length (rows ts)) 0) ts)))
            (set_column ''delta_pulse_number'' (replicate (length (rows ts)) 0) ts))
      \<and> postfit_model s' = Some fm \<and> fitted s'
      \<and> postfit_resids s' = Some (Residuals (all_toas s') fm None)
      \<and> use_pulse_numbers s' = use_pulse_numbers s"
proof -
  let ?s1 = "s\<lparr>postfit_model := Some fm, fitted := True\<rparr>"
  from assms obtain al where al: "zero_column ''delta_pulse_numbers'' (all_toas ?s1) = Inr al"
    by (auto simp: after_fit_def Let_def split: sum.splits)
  let ?s2 = "?s1\<lparr>all_toas := al\<rparr>"
  from assms al obtain st where st: "zero_column ''delta_pulse_number'' (selected_toas ?s2) = Inr st"
    by (auto simp: after_fit_def Let_def split: sum.splits)
  let ?s3 = "?s2\<lparr>selected_toas := st\<rparr>"
  from assms al st obtain s4 where cb: "compute_both X fm ?s3 = (s4, Inr ())"
    and s': "s' = s4\<lparr>postfit_resids := Some (Residuals (all_toas s4) fm None),
                     prefit_resids_no_jumps :=
                       Some (Residuals (all_toas s4) (no_jumps_model (prefit_model s4)) None)\<rparr>"
    by (auto simp: after_fit_def Let_def and_then_def split: sum.splits prod.splits)
  from compute_both_Inr [OF cb] obtain al' st' where
    al': "compute_pulse_numbers X fm al = Inr al'" and st': "compute_pulse_numbers X fm st = Inr st'"
    and s4: "s4 = ?s3\<lparr>all_toas := al', selected_toas := st'\<rparr>"
    by auto
  from zero_column_Some [OF al] obtain ta where
    ta: "table (all_toas s) = Some ta"
      "table al = Some (set_column ''delta_pulse_numbers'' (replicate (length (rows ta)) 0) ta)"
    by auto
  from zero_column_Some [OF st] obtain ts where
    ts: "table (selected_toas s) = Some ts"
      "table st = Some (set_column ''delta_pulse_number'' (replicate (length (rows ts)) 0) ts)"
    by auto
  from compute_pulse_numbers_Some [OF al'] ta(2)
  have 1: "table al' = Some (set_column ''pulse_number''
            (map (pulse_number_of X fm) (rows (set_column ''delta_pulse_numbers''
                (replicate (length (rows ta)) 0) ta)))
            (set_column ''delta_pulse_numbers'' (replicate (length (rows ta)) 0) ta))"
    by simp
  from compute_pulse_numbers_Some [OF st'] ts(2)
  have 2: "table st' = Some (set_column ''pulse_number''
            (map (pulse_number_of X fm) (rows (set_column ''delta_pulse_number''
                (replicate (length (rows ts)) 0) ts)))
            (set_column ''delta_pulse_number'' (replicate (length (rows ts)) 0) ts))"
    by simp
  show ?thesis
    using ta(1) ts(1) 1 2 by (simp add: s' s4)
qed

lemma fit_Inr:
  assumes "fit X s selected iters compute_random = (s', Inr u)"
  shows "\<exists>s1 s2 fm. promote s = (s1, Inr ()) \<and> run_fitter X s1 = Inr fm
           \<and> after_fit X fm s1 = (s2, Inr ())
           \<and> (if compute_random then random_models X fm s2 = (s', Inr u) else s' = s2)"
  using assms
  by (auto simp: fit_def Let_def and_then_def split: prod.splits sum.splits if_splits)

text \<open>
  Claim C10 (the phase wraps of the full set survive a fit).  After a fit that returns,
  the column \<open>delta_pulse_number\<close> of the selected TOA set holds zeros, the zeros for
  the full TOA set are in a column named \<open>delta_pulse_numbers\<close>, and the column
  \<open>delta_pulse_number\<close> of the full TOA set is what it was before the fit (and is
  present exactly if it was).  The post-fit residuals, and the residuals computed
  afterwards in pulse-number tracking mode, are those of this full TOA set.
\<close>

theorem fit_keeps_full_delta_pulse_number:
  assumes "fit X s selected iters compute_random = (s', Inr u)"
  shows "\<exists>ta ta' ts' fm.
         table (all_toas s) = Some ta \<and> table (all_toas s') = Some ta'
       \<and> table (selected_toas s') = Some ts'
       \<and> column ''delta_pulse_number'' ta' = column ''delta_pulse_number'' ta
       \<and> (''delta_pulse_number'' \<in> set (colnames ta') \<longleftrightarrow> ''delta_pulse_number'' \<in> set (colnames ta))
       \<and> ''delta_pulse_numbers'' \<in> set (colnames ta')
       \<and> column ''delta_pulse_numbers'' ta' = replicate (length (rows ta')) 0
       \<and> ''delta_pulse_number'' \<in> set (colnames ts')
       \<and> column ''delta_pulse_number'' ts' = replicate (length (rows ts')) 0
       \<and> postfit_resids s' = Some (Residuals (all_toas s') fm None)
       \<and> all_toas (fst (update_resids s')) = all_toas s'
       \<and> postfit_resids (fst (update_resids s'))
           = Some (Residuals (all_toas s') fm
                (if use_pulse_numbers s' then Some ''use_pulse_numbers'' else None))"
proof -
  from fit_Inr [OF assms] obtain s1 s2 fm where
    p: "promote s = (s1, Inr ())" and af: "after_fit X fm s1 = (s2, Inr ())"
    and r: "if compute_random then random_models X fm s2 = (s', Inr u) else s' = s2"
    by blast
  have fr: "all_toas s' = all_toas s2" "selected_toas s' = selected_toas s2"
    "postfit_resids s' = postfit_resids s2" "postfit_model s' = postfit_model s2"
    "fitted s' = fitted s2"
    using r random_models_frame [of X fm s2 s' "Inr u"] by (auto split: if_splits)
  from after_fit_Inr [OF af] promote_frame [OF p] obtain ta ts where
    ta: "table (all_toas s) = Some ta" and ts: "table (selected_toas s) = Some ts"
    and ta': "table (all_toas s2) = Some (set_column ''pulse_number''
            (map (pulse_number_of X fm) (rows (set_column ''delta_pulse_numbers''
                (replicate (length (rows ta)) 0) ta)))
            (set_column ''delta_pulse_numbers'' (replicate (length (rows ta)) 0) ta))"
    and ts': "table (selected_toas s2) = Some (set_column ''pulse_number''
            (map (pulse_number_of X fm) (rows (set_column ''delta_pulse_number''
                (replicate (length (rows ts)) 0) ts)))
            (set_column ''delta_pulse_number'' (replicate (length (rows ts)) 0) ts))"
    and post: "postfit_model s2 = Some fm" "fitted s2"
      "postfit_resids s2 = Some (Residuals (all_toas s2) fm None)"
    by auto
  have upd: "all_toas (fst (update_resids s')) = all_toas s'
       \<and> postfit_resids (fst (update_resids s'))
           = Some (Residuals (all_toas s') fm
                (if use_pulse_numbers s' then Some ''use_pulse_numbers'' else None))"
    using post fr by (simp add: update_resids_def Let_def)
  show ?thesis
    using ta ta' ts' post(3) upd
    by (simp add: fr column_set_column_other column_set_column_same colnames_set_column)
qed

theorem fit_keeps_full_delta_pulse_number_witness:
  "snd (fit ex_refining ex_wrapped [True, True, True] 1 False) = Inr ()
   \<and> map_option (column ''delta_pulse_number'') (table (all_toas ex_wrapped)) = Some [1, 0, 1]
   \<and> map_option (column ''delta_pulse_number'')
        (table (all_toas (fst (fit ex_refining ex_wrapped [True, True, True] 1 False))))
        = Some [1, 0, 1]
   \<and> map_option (column ''delta_pulse_number'')
        (table (selected_toas (fst (fit ex_refining ex_wrapped [True, True, True] 1 False))))
        = Some [0, 0, 0]"
proof -
  let ?r = "fit ex_refining ex_wrapped [True, True, True] 1 False"
  have ev: "snd ?r = Inr ()
   \<and> map_option (column ''delta_pulse_number'') (table (all_toas ex_wrapped)) = Some [1, 0, 1]
   \<and> map_option (column ''delta_pulse_number'') (table (all_toas (fst ?r))) = Some [1, 0, 1]
   \<and> map_option (column ''delta_pulse_number'') (table (selected_toas (fst ?r))) = Some [0, 0, 0]"
    by code_simp
  then have ret: "?r = (fst ?r, Inr ())"
    by (metis prod.collapse)
  from fit_keeps_full_delta_pulse_number [OF ret]
  have "\<exists>ta ta'. table (all_toas ex_wrapped) = Some ta \<and> table (all_toas (fst ?r)) = Some ta'
          \<and> column ''delta_pulse_number'' ta' = column ''delta_pulse_number'' ta"
    by blast
  with ev show ?thesis by blast
qed

section \<open>Phase wraps and pulse-number tracking\<close>

lemma update_resids_frame:
  "all_toas (fst (update_resids s)) = all_toas s"
  "selected_toas (fst (update_resids s)) = selected_toas s"
  "use_pulse_numbers (fst (update_resids s)) = use_pulse_numbers s"
  by (auto simp: update_resids_def Let_def split: option.splits)

lemma update_resids_Inr:
  "update_resids s = (s', Inr u) \<Longrightarrow> fitted s \<Longrightarrow> \<exists>pm. postfit_model s = Some pm"
  by (auto simp: update_resids_def Let_def split: option.splits if_splits)

lemma column_missing_Inr:
  assumes "column_missing name s = Inr b"
  shows "\<exists>ta. table (all_toas s) = Some ta
          \<and> (if name \<notin> set (colnames ta) then b
              else \<exists>ts. table (selected_toas s) = Some ts \<and> b = (name \<notin> set (colnames ts)))"
  using assms by (auto simp: column_missing_def split: option.splits if_splits)

text \<open>What the two tests of \<open>add_phase_wrap\<close> leave when they return.\<close>

lemma ensure_pulse_numbers_Inr:
  assumes "ensure_pulse_numbers X s = (s', Inr u)"
  shows "\<exists>ta ts. table (all_toas s) = Some ta \<and> table (selected_toas s) = Some ts
      \<and> (if ''pulse_number'' \<notin> set (colnames ta) \<or> ''pulse_number'' \<notin> set (colnames ts)
          then \<exists>m. (if fitted s then postfit_model s = Some m else m = prefit_model s)
               \<and> s' = s\<lparr>all_toas := (all_toas s)\<lparr>table := Some
                           (set_column ''pulse_number'' (map (pulse_number_of X m) (rows ta)) ta)\<rparr>,
                        selected_toas := (selected_toas s)\<lparr>table := Some
                           (set_column ''pulse_number'' (map (pulse_number_of X m) (rows ts)) ts)\<rparr>\<rparr>
          else s' = s)"
proof (cases "column_missing ''pulse_number'' s")
  case (Inl e)
  with assms show ?thesis by (simp add: ensure_pulse_numbers_def)
next
  case (Inr b)
  show ?thesis
  proof (cases b)
    case False
    with Inr assms column_missing_Inr [OF Inr] show ?thesis
      by (auto simp: ensure_pulse_numbers_def split: if_splits)
  next
    case True
    from True Inr assms obtain m where
      m: "if fitted s then postfit_model s = Some m else m = prefit_model s"
      and cb: "compute_both X m s = (s', Inr u)"
      by (auto simp: ensure_pulse_numbers_def split: if_splits option.splits)
    from compute_both_Inr [OF cb] obtain al st where
      al: "compute_pulse_numbers X m (all_toas s) = Inr al"
      and st: "compute_pulse_numbers X m (selected_toas s) = Inr st"
      and s': "s' = s\<lparr>all_toas := al, selected_toas := st\<rparr>"
      by auto
    from compute_pulse_numbers_Some [OF al] compute_pulse_numbers_Some [OF st]
    obtain ta ts where
      ta: "table (all_toas s) = Some ta"
        "table al = Some (set_column ''pulse_number'' (map (pulse_number_of X m) (rows ta)) ta)"
      and ts: "table (selected_toas s) = Some ts"
        "table st = Some (set_column ''pulse_number'' (map (pulse_number_of X m) (rows ts)) ts)"
      by auto
    have al_eq: "al = (all_toas s)\<lparr>table := Some
          (set_column ''pulse_number'' (map (pulse_number_of X m) (rows ta)) ta)\<rparr>"
      using al ta by (auto simp: compute_pulse_numbers_def)
    have st_eq: "st = (selected_toas s)\<lparr>table := Some
          (set_column ''pulse_number'' (map (pulse_number_of X m) (rows ts)) ts)\<rparr>"
      using st ts by (auto simp: compute_pulse_numbers_def)
    have miss: "''pulse_number'' \<notin> set (colnames ta) \<or> ''pulse_number'' \<notin> set (colnames ts)"
      using column_missing_Inr [OF Inr] True ta(1) ts(1) by (auto split: if_splits)
    show ?thesis
      using ta(1) ts(1) miss m s' al_eq st_eq by auto
  qed
qed

lemma ensure_delta_pulse_number_Inr:
  assumes "ensure_delta_pulse_number s = (s', Inr u)"
  shows "\<exists>ta ts. table (all_toas s) = Some ta \<and> table (selected_toas s) = Some ts
      \<and> (if ''delta_pulse_number'' \<notin> set (colnames ta) \<or> ''delta_pulse_number'' \<notin> set (colnames ts)
          then s' = s\<lparr>all_toas := (all_toas s)\<lparr>table := Some
                           (set_column ''delta_pulse_number'' (replicate (length (rows ta)) 0) ta)\<rparr>,
                        selected_toas := (selected_toas s)\<lparr>table := Some
                           (set_column ''delta_pulse_number'' (replicate (length (rows ts)) 0) ts)\<rparr>\<rparr>
          else s' = s)"
proof (cases "column_missing ''delta_pulse_number'' s")
  case (Inl e)
  with assms show ?thesis by (simp add: ensure_delta_pulse_number_def)
next
  case (Inr b)
  show ?thesis
  proof (cases b)
    case False
    with Inr assms column_missing_Inr [OF Inr] show ?thesis
      by (auto simp: ensure_delta_pulse_number_def split: if_splits)
  next
    case True
    from True Inr assms obtain al st where
      al: "zero_column ''delta_pulse_number'' (all_toas s) = Inr al"
      and st: "zero_column ''delta_pulse_number'' (selected_toas s) = Inr st"
      and s': "s' = s\<lparr>all_toas := al, selected_toas := st\<rparr>"
      by (auto simp: ensure_delta_pulse_number_def split: sum.splits)
    from al st obtain ta ts where
      ta: "table (all_toas s) = Some ta"
        "al = (all_toas s)\<lparr>table := Some
          (set_column ''delta_pulse_number'' (replicate (length (rows ta)) 0) ta)\<rparr>"
      and ts: "table (selected_toas s) = Some ts"
        "st = (selected_toas s)\<lparr>table := Some
          (set_column ''delta_pulse_number'' (replicate (length (rows ts)) 0) ts)\<rparr>"
      by (auto simp: zero_column_def split: option.splits)
    have miss: "''delta_pulse_number'' \<notin> set (colnames ta) \<or> ''delta_pulse_number'' \<notin> set (colnames ts)"
      using column_missing_Inr [OF Inr] True ta(1) ts(1) by (auto split: if_splits)
    show ?thesis
      using ta ts miss s' by auto
  qed
qed

lemma wrap_selected_Inr:
  assumes "wrap_selected selected phase s = (s', Inr u)"
  shows "\<exists>ta. table (all_toas s) = Some ta \<and> length selected = length (rows ta)
      \<and> s' = s\<lparr>all_toas := (all_toas s)\<lparr>table := Some
                   (set_column ''delta_pulse_number''
                      (add_to_selected selected phase (column ''delta_pulse_number'' ta)) ta)\<rparr>\<rparr>"
  using assms by (auto simp: wrap_selected_def split: option.splits if_splits)

lemma add_phase_wrap_Inr:
  assumes "add_phase_wrap X s selected phase = (s', Inr u)"
  shows "\<exists>s1 s2 s3. ensure_pulse_numbers X s = (s1, Inr ())
          \<and> ensure_delta_pulse_number s1 = (s2, Inr ())
          \<and> wrap_selected selected phase s2 = (s3, Inr ())
          \<and> update_resids (s3\<lparr>use_pulse_numbers := True\<rparr>) = (s', Inr u)"
  using assms
  by (auto simp: add_phase_wrap_def and_then_def split: prod.splits sum.splits)

lemma add_to_selected_nth:
  "i < length col \<Longrightarrow> i < length selected \<Longrightarrow>
     add_to_selected selected phase col ! i = col ! i + (if selected ! i then phase else 0)"
  by (simp add: add_to_selected_def)

lemma length_add_to_selected [simp]:
  "length (add_to_selected selected phase col) = min (length col) (length selected)"
  by (simp add: add_to_selected_def)

lemma length_column [simp]: "length (column name t) = length (rows t)"
  by (simp add: column_def)

subsection \<open>Pulse-number tracking stays on\<close>

lemma reselect_tracking:
  "reselect s indices selected = (s', r) \<Longrightarrow> use_pulse_numbers s' = use_pulse_numbers s"
  by (auto simp: reselect_def Let_def split: option.splits sum.splits)

lemma delete_stashed_tracking:
  "delete_stashed s = Inr s' \<Longrightarrow> use_pulse_numbers s' = use_pulse_numbers s"
  by (auto simp: delete_stashed_def split: option.splits if_splits)


lemma delete_TOAs_tracking:
  assumes "delete_TOAs s indices selected = (s', r)"
  shows "use_pulse_numbers s' = use_pulse_numbers s"
proof -
  let ?s1 = "s\<lparr>deleted := pyset_union (deleted s) indices\<rparr>"
  show ?thesis
  proof (cases "if selected \<noteq> None then delete_from (deleted ?s1) (selected_toas ?s1)
            else Inr (selected_toas ?s1)")
    case (Inl e)
    with assms show ?thesis by (auto simp: delete_TOAs_def Let_def)
  next
    case (Inr st)
    let ?s2 = "?s1\<lparr>selected_toas := st\<rparr>"
    show ?thesis
    proof (cases "delete_from (deleted ?s2) (all_toas ?s2)")
      case (Inl e)
      with assms Inr show ?thesis by (auto simp: delete_TOAs_def Let_def)
    next
      case al: (Inr al)
      obtain s3 r3 where re: "reselect (?s2\<lparr>all_toas := al\<rparr>) indices selected = (s3, r3)"
        by (cases "reselect (?s2\<lparr>all_toas := al\<rparr>) indices selected")
      have s3: "use_pulse_numbers s3 = use_pulse_numbers s"
        using reselect_tracking [OF re] by simp
      show ?thesis
      proof (cases r3)
        case (Inl e)
        with assms Inr al re s3 show ?thesis by (auto simp: delete_TOAs_def Let_def)
      next
        case r3: (Inr sel')
        show ?thesis
        proof (cases "delete_stashed s3")
          case (Inl e)
          with assms Inr al re s3 r3 show ?thesis by (auto simp: delete_TOAs_def Let_def)
        next
          case s4: (Inr s4)
          with assms Inr al re r3 have "s' = s4" by (simp add: delete_TOAs_def Let_def)
          then show ?thesis using delete_stashed_tracking [OF s4] s3 by simp
        qed
      qed
    qed
  qed
qed

lemma compute_both_tracking:
  "compute_both X m s = (s', r) \<Longrightarrow> use_pulse_numbers s' = use_pulse_numbers s"
  by (auto simp: compute_both_def split: sum.splits)

lemma after_fit_tracking:
  assumes "after_fit X fm s = (s', r)"
  shows "use_pulse_numbers s' = use_pulse_numbers s"
proof -
  let ?s1 = "s\<lparr>postfit_model := Some fm, fitted := True\<rparr>"
  show ?thesis
  proof (cases "zero_column ''delta_pulse_numbers'' (all_toas ?s1)")
    case (Inl e)
    with assms show ?thesis by (auto simp: after_fit_def Let_def)
  next
    case (Inr al)
    let ?s2 = "?s1\<lparr>all_toas := al\<rparr>"
    show ?thesis
    proof (cases "zero_column ''delta_pulse_number'' (selected_toas ?s2)")
      case (Inl e)
      with assms Inr show ?thesis by (auto simp: after_fit_def Let_def)
    next
      case st: (Inr st)
      obtain s3 r3 where cb: "compute_both X fm (?s2\<lparr>selected_toas := st\<rparr>) = (s3, r3)"
        by (cases "compute_both X fm (?s2\<lparr>selected_toas := st\<rparr>)")
      have "use_pulse_numbers s3 = use_pulse_numbers s"
        using compute_both_tracking [OF cb] by simp
      with assms Inr st cb show ?thesis
        by (cases r3) (auto simp: after_fit_def Let_def)
    qed
  qed
qed

lemma fit_tracking:
  assumes "fit X s selected iters compute_random = (s', r)"
  shows "use_pulse_numbers s' = use_pulse_numbers s"
proof -
  obtain s1 r1 where p: "promote s = (s1, r1)" by (cases "promote s")
  have s1: "use_pulse_numbers s1 = use_pulse_numbers s"
    using promote_frame(3) [OF p] .
  show ?thesis
  proof (cases r1)
    case (Inl e)
    then show ?thesis using assms p s1 by (auto simp: fit_def)
  next
    case (Inr u)
    show ?thesis
    proof (cases "run_fitter X s1")
      case (Inl e)
      then show ?thesis using assms p s1 Inr by (auto simp: fit_def)
    next
      case fm: (Inr fm)
      obtain s2 r2 where af: "after_fit X fm s1 = (s2, r2)" by (cases "after_fit X fm s1")
      have s2: "use_pulse_numbers s2 = use_pulse_numbers s"
        using after_fit_tracking [OF af] s1 by simp
      show ?thesis
      proof (cases r2)
        case (Inl e)
        then show ?thesis using assms p Inr fm af s2 by (auto simp: fit_def)
      next
        case r2: (Inr u2)
        show ?thesis
        proof (cases compute_random)
          case True
          with assms p Inr fm af r2 have "random_models X fm s2 = (s', r)"
            by (simp add: fit_def)
          from random_models_frame(4) [OF this] s2 show ?thesis by simp
        next
          case False
          with assms p Inr fm af r2 s2 show ?thesis by (auto simp: fit_def)
        qed
      qed
    qed
  qed
qed


lemma add_to_prefit_tracking:
  "add_to_prefit X s selected = (s', r) \<Longrightarrow> use_pulse_numbers s' = use_pulse_numbers s"
  by (auto simp: add_to_prefit_def Let_def split: option.splits prod.splits if_splits)

lemma add_first_jump_tracking:
  assumes "add_first_jump X s selected = (s', r)"
  shows "use_pulse_numbers s' = use_pulse_numbers s"
proof -
  let ?s0 = "s\<lparr>prefit_model := add_component ''PhaseJump'' [] (prefit_model s)\<rparr>"
  obtain s1 r1 where a: "add_to_prefit X ?s0 selected = (s1, r1)"
    by (cases "add_to_prefit X ?s0 selected")
  have "use_pulse_numbers s1 = use_pulse_numbers s"
    using add_to_prefit_tracking [OF a] by simp
  then show ?thesis
    using a assms by (auto simp: add_first_jump_def split: sum.splits option.splits if_splits)
qed

lemma add_new_jump_tracking:
  assumes "add_new_jump X s selected = (s', r)"
  shows "use_pulse_numbers s' = use_pulse_numbers s"
proof -
  obtain s1 r1 where a: "add_to_prefit X s selected = (s1, r1)"
    by (cases "add_to_prefit X s selected")
  have "use_pulse_numbers s1 = use_pulse_numbers s"
    using add_to_prefit_tracking [OF a] by simp
  then show ?thesis
    using a assms
    by (auto simp: add_new_jump_def split: sum.splits option.splits list.splits if_splits)
qed

lemma remove_jump_tracking:
  "remove_jump s ta num = (s', r) \<Longrightarrow> use_pulse_numbers s' = use_pulse_numbers s"
  by (auto simp: remove_jump_def Let_def split: prod.splits option.splits if_splits)

lemma add_jump_tracking:
  "add_jump X s selected = (s', r) \<Longrightarrow> use_pulse_numbers s' = use_pulse_numbers s"
  by (auto simp: add_jump_def Let_def split: option.splits if_splits
        dest: add_first_jump_tracking add_new_jump_tracking remove_jump_tracking)


lemma ensure_pulse_numbers_tracking:
  "ensure_pulse_numbers X s = (s', r) \<Longrightarrow> use_pulse_numbers s' = use_pulse_numbers s"
  by (auto simp: ensure_pulse_numbers_def
        split: sum.splits bool.splits option.splits if_splits dest: compute_both_tracking)

lemma ensure_delta_pulse_number_tracking:
  "ensure_delta_pulse_number s = (s', r) \<Longrightarrow> use_pulse_numbers s' = use_pulse_numbers s"
  by (auto simp: ensure_delta_pulse_number_def split: sum.splits bool.splits)

lemma wrap_selected_tracking:
  "wrap_selected selected phase s = (s', r) \<Longrightarrow> use_pulse_numbers s' = use_pulse_numbers s"
  by (auto simp: wrap_selected_def split: option.splits if_splits)

lemma update_resids_tracking:
  "update_resids s = (s', r) \<Longrightarrow> use_pulse_numbers s' = use_pulse_numbers s"
  using update_resids_frame(3) [of s] by simp

lemma add_phase_wrap_tracking:
  assumes "add_phase_wrap X s selected phase = (s', r)" and "use_pulse_numbers s"
  shows "use_pulse_numbers s'"
proof -
  obtain s1 r1 where 1: "ensure_pulse_numbers X s = (s1, r1)"
    by (cases "ensure_pulse_numbers X s")
  obtain s2 r2 where 2: "ensure_delta_pulse_number s1 = (s2, r2)"
    by (cases "ensure_delta_pulse_number s1")
  obtain s3 r3 where 3: "wrap_selected selected phase s2 = (s3, r3)"
    by (cases "wrap_selected selected phase s2")
  obtain s4 r4 where 4: "update_resids (s3\<lparr>use_pulse_numbers := True\<rparr>) = (s4, r4)"
    by (cases "update_resids (s3\<lparr>use_pulse_numbers := True\<rparr>)")
  have t: "use_pulse_numbers s1" "use_pulse_numbers s2" "use_pulse_numbers s3" "use_pulse_numbers s4"
    using ensure_pulse_numbers_tracking [OF 1] ensure_delta_pulse_number_tracking [OF 2]
      wrap_selected_tracking [OF 3] update_resids_tracking [OF 4] assms(2)
    by simp_all
  have "s' = s1 \<or> s' = s2 \<or> s' = s3 \<or> s' = s4"
    using assms(1) 1 2 3 4
    by (cases r1; cases r2; cases r3) (auto simp: add_phase_wrap_def)
  with t show ?thesis by auto
qed

lemma run_tracking: "use_pulse_numbers s \<Longrightarrow> use_pulse_numbers (run X s c)"
proof (cases c)
  case (Delete indices selected)
  then show "use_pulse_numbers s \<Longrightarrow> ?thesis"
    using delete_TOAs_tracking [of s indices selected] by (simp add: prod_eq_iff)
next
  case (Fit selected iters compute_random)
  then show "use_pulse_numbers s \<Longrightarrow> ?thesis"
    using fit_tracking [of X s selected iters compute_random] by (simp add: prod_eq_iff)
next
  case (Add_jump selected)
  then show "use_pulse_numbers s \<Longrightarrow> ?thesis"
    using add_jump_tracking [of X s selected] by (simp add: prod_eq_iff)
next
  case (Add_phase_wrap selected phase)
  then show "use_pulse_numbers s \<Longrightarrow> ?thesis"
    using add_phase_wrap_tracking [of X s selected phase] by (simp add: prod_eq_iff)
next
  case Update_resids
  then show "use_pulse_numbers s \<Longrightarrow> ?thesis"
    by (simp add: update_resids_frame)
next
  case Reset_model
  then show "use_pulse_numbers s \<Longrightarrow> ?thesis"
    by (simp add: reset_model_def update_resids_frame)
next
  case Reset_TOAs
  then show "use_pulse_numbers s \<Longrightarrow> ?thesis"
    by (simp add: reset_TOAs_def update_resids_frame)
qed

lemma foldl_run_tracking:
  "use_pulse_numbers s \<Longrightarrow> use_pulse_numbers (foldl (run X) s cs)"
  by (induction cs arbitrary: s) (simp_all add: run_tracking)

subsection \<open>What a phase wrap does\<close>

lemma update_resids_tables:
  "update_resids s = (s', r) \<Longrightarrow> all_toas s' = all_toas s \<and> selected_toas s' = selected_toas s"
  using update_resids_frame(1,2) [of s] by simp

text \<open>
  Claim C9, amended.  An \<open>add_phase_wrap\<close> call that returns leaves both TOA sets with
  a \<open>pulse_number\<close> and a \<open>delta_pulse_number\<close> column.  When \<open>pulse_number\<close> was
  missing on either set, both sets got it from the post-fit model if the session is
  fitted and from the pre-fit model otherwise; when \<open>delta_pulse_number\<close> was missing on
  either set, both sets got it as zeros; columns that both sets had are kept.  Then
  \<open>cycles\<close> is added to \<open>delta_pulse_number\<close> of the full set at the positions the mask
  selects, and nowhere else.  The session is in pulse-number tracking mode, and stays
  in it through every later command (delete, fit, add_jump, add_phase_wrap,
  update_resids, reset_model, reset_TOAs), returned or raised; \<open>resetAll\<close> is the one
  method that turns tracking off.
\<close>

theorem add_phase_wrap_effect:
  assumes "add_phase_wrap X s selected cycles = (s', Inr u)"
  shows "\<exists>ta ts ta' ts' m.
      table (all_toas s) = Some ta \<and> table (selected_toas s) = Some ts
    \<and> table (all_toas s') = Some ta' \<and> table (selected_toas s') = Some ts'
    \<and> (if fitted s then postfit_model s = Some m else m = prefit_model s)
    \<and> length selected = length (rows ta)
    \<and> length (rows ta') = length (rows ta) \<and> length (rows ts') = length (rows ts)
    \<and> ''pulse_number'' \<in> set (colnames ta') \<and> ''pulse_number'' \<in> set (colnames ts')
    \<and> ''delta_pulse_number'' \<in> set (colnames ta') \<and> ''delta_pulse_number'' \<in> set (colnames ts')
    \<and> (if ''pulse_number'' \<notin> set (colnames ta) \<or> ''pulse_number'' \<notin> set (colnames ts)
        then column ''pulse_number'' ta' = map (pulse_number_of X m) (rows ta)
           \<and> column ''pulse_number'' ts' = map (pulse_number_of X m) (rows ts)
        else column ''pulse_number'' ta' = column ''pulse_number'' ta
           \<and> column ''pulse_number'' ts' = column ''pulse_number'' ts)
    \<and> (if ''delta_pulse_number'' \<notin> set (colnames ta) \<or> ''delta_pulse_number'' \<notin> set (colnames ts)
        then column ''delta_pulse_number'' ts' = replicate (length (rows ts)) 0
           \<and> (\<forall>i<length (rows ta). column ''delta_pulse_number'' ta' ! i
                  = (if selected ! i then cycles else 0))
        else column ''delta_pulse_number'' ts' = column ''delta_pulse_number'' ts
           \<and> (\<forall>i<length (rows ta). column ''delta_pulse_number'' ta' ! i
                  = column ''delta_pulse_number'' ta ! i + (if selected ! i then cycles else 0)))
    \<and> use_pulse_numbers s'
    \<and> (\<forall>cs. use_pulse_numbers (foldl (run X) s' cs))"
proof -
  from add_phase_wrap_Inr [OF assms] obtain s1 s2 s3 where
    e1: "ensure_pulse_numbers X s = (s1, Inr ())"
    and e2: "ensure_delta_pulse_number s1 = (s2, Inr ())"
    and w: "wrap_selected selected cycles s2 = (s3, Inr ())"
    and upd: "update_resids (s3\<lparr>use_pulse_numbers := True\<rparr>) = (s', Inr u)"
    by blast
  have fr: "all_toas s' = all_toas s3" "selected_toas s' = selected_toas s3"
    using update_resids_tables [OF upd] by simp_all
  have on: "use_pulse_numbers s'"
    using update_resids_tracking [OF upd] by simp
  have f3: "fitted s3 = fitted s" "postfit_model s3 = postfit_model s"
  proof -
    from ensure_pulse_numbers_Inr [OF e1] have "fitted s1 = fitted s \<and> postfit_model s1 = postfit_model s"
      by (auto split: if_splits)
    moreover from ensure_delta_pulse_number_Inr [OF e2]
    have "fitted s2 = fitted s1 \<and> postfit_model s2 = postfit_model s1"
      by (auto split: if_splits)
    moreover from wrap_selected_Inr [OF w]
    have "fitted s3 = fitted s2 \<and> postfit_model s3 = postfit_model s2"
      by auto
    ultimately show "fitted s3 = fitted s" "postfit_model s3 = postfit_model s" by simp_all
  qed
  obtain m where m: "if fitted s then postfit_model s = Some m else m = prefit_model s"
    using update_resids_Inr [OF upd] f3 by (cases "fitted s") auto
  from ensure_pulse_numbers_Inr [OF e1] obtain ta ts where
    ta: "table (all_toas s) = Some ta" and ts: "table (selected_toas s) = Some ts"
    and s1: "if ''pulse_number'' \<notin> set (colnames ta) \<or> ''pulse_number'' \<notin> set (colnames ts)
          then \<exists>m. (if fitted s then postfit_model s = Some m else m = prefit_model s)
               \<and> s1 = s\<lparr>all_toas := (all_toas s)\<lparr>table := Some
                           (set_column ''pulse_number'' (map (pulse_number_of X m) (rows ta)) ta)\<rparr>,
                        selected_toas := (selected_toas s)\<lparr>table := Some
                           (set_column ''pulse_number'' (map (pulse_number_of X m) (rows ts)) ts)\<rparr>\<rparr>
          else s1 = s"
    by blast
  define ta1 where "ta1 = (if ''pulse_number'' \<notin> set (colnames ta) \<or> ''pulse_number'' \<notin> set (colnames ts)
       then set_column ''pulse_number'' (map (pulse_number_of X m) (rows ta)) ta else ta)"
  define ts1 where "ts1 = (if ''pulse_number'' \<notin> set (colnames ta) \<or> ''pulse_number'' \<notin> set (colnames ts)
       then set_column ''pulse_number'' (map (pulse_number_of X m) (rows ts)) ts else ts)"
  have t1: "table (all_toas s1) = Some ta1" "table (selected_toas s1) = Some ts1"
    using s1 m ta ts by (auto simp: ta1_def ts1_def split: if_splits)
  have l1: "length (rows ta1) = length (rows ta)" "length (rows ts1) = length (rows ts)"
    by (simp_all add: ta1_def ts1_def)
  have c1: "set (colnames ta1) = (if ''pulse_number'' \<notin> set (colnames ta) \<or> ''pulse_number'' \<notin> set (colnames ts)
       then insert ''pulse_number'' (set (colnames ta)) else set (colnames ta))"
    "set (colnames ts1) = (if ''pulse_number'' \<notin> set (colnames ta) \<or> ''pulse_number'' \<notin> set (colnames ts)
       then insert ''pulse_number'' (set (colnames ts)) else set (colnames ts))"
    by (simp_all add: ta1_def ts1_def colnames_set_column)
  have d1: "column ''delta_pulse_number'' ta1 = column ''delta_pulse_number'' ta"
    "column ''delta_pulse_number'' ts1 = column ''delta_pulse_number'' ts"
    by (simp_all add: ta1_def ts1_def column_set_column_other)
  have p1: "column ''pulse_number'' ta1
      = (if ''pulse_number'' \<notin> set (colnames ta) \<or> ''pulse_number'' \<notin> set (colnames ts)
         then map (pulse_number_of X m) (rows ta) else column ''pulse_number'' ta)"
    "column ''pulse_number'' ts1
      = (if ''pulse_number'' \<notin> set (colnames ta) \<or> ''pulse_number'' \<notin> set (colnames ts)
         then map (pulse_number_of X m) (rows ts) else column ''pulse_number'' ts)"
    by (simp_all add: ta1_def ts1_def column_set_column_same)
  let ?D = "''delta_pulse_number'' \<notin> set (colnames ta) \<or> ''delta_pulse_number'' \<notin> set (colnames ts)"
  have D1: "(''delta_pulse_number'' \<notin> set (colnames ta1) \<or> ''delta_pulse_number'' \<notin> set (colnames ts1)) = ?D"
    by (auto simp: c1)
  define ta2 where "ta2 = (if ?D then set_column ''delta_pulse_number'' (replicate (length (rows ta1)) 0) ta1 else ta1)"
  define ts2 where "ts2 = (if ?D then set_column ''delta_pulse_number'' (replicate (length (rows ts1)) 0) ts1 else ts1)"
  have t2: "table (all_toas s2) = Some ta2" "table (selected_toas s2) = Some ts2"
    using ensure_delta_pulse_number_Inr [OF e2] t1 D1
    by (auto simp: ta2_def ts2_def split: if_splits)
  have l2: "length (rows ta2) = length (rows ta)" "length (rows ts2) = length (rows ts)"
    by (simp_all add: ta2_def ts2_def l1)
  have c2: "''delta_pulse_number'' \<in> set (colnames ts2)" "''pulse_number'' \<in> set (colnames ts2)"
    "''pulse_number'' \<in> set (colnames ta2)"
    by (auto simp: ta2_def ts2_def colnames_set_column c1)
  have d2: "column ''delta_pulse_number'' ta2
      = (if ?D then replicate (length (rows ta)) 0 else column ''delta_pulse_number'' ta)"
    "column ''delta_pulse_number'' ts2
      = (if ?D then replicate (length (rows ts)) 0 else column ''delta_pulse_number'' ts)"
    by (simp_all add: ta2_def ts2_def column_set_column_same d1 l1)
  have p2: "column ''pulse_number'' ta2 = column ''pulse_number'' ta1"
    "column ''pulse_number'' ts2 = column ''pulse_number'' ts1"
    by (simp_all add: ta2_def ts2_def column_set_column_other)
  define ta3 where "ta3 = set_column ''delta_pulse_number''
      (add_to_selected selected cycles (column ''delta_pulse_number'' ta2)) ta2"
  from wrap_selected_Inr [OF w] t2 have
    len: "length selected = length (rows ta)" and t3: "table (all_toas s3) = Some ta3"
    and sel3: "selected_toas s3 = selected_toas s2"
    by (auto simp: ta3_def l2)
  have la: "length (add_to_selected selected cycles (column ''delta_pulse_number'' ta2)) = length (rows ta2)"
    by (simp add: len l2)
  have l3: "length (rows ta3) = length (rows ta)"
    unfolding ta3_def using length_rows_set_column [OF la] l2 by simp
  have c3: "''pulse_number'' \<in> set (colnames ta3)" "''delta_pulse_number'' \<in> set (colnames ta3)"
    using c2(3) by (simp_all add: ta3_def colnames_set_column)
  have p3: "column ''pulse_number'' ta3 = column ''pulse_number'' ta1"
    unfolding ta3_def using column_set_column_other [OF la, of "''pulse_number''"] p2 by simp
  have d3: "column ''delta_pulse_number'' ta3
      = add_to_selected selected cycles (column ''delta_pulse_number'' ta2)"
    unfolding ta3_def using column_set_column_same [OF la] by simp
  have d3n: "\<forall>i<length (rows ta). column ''delta_pulse_number'' ta3 ! i
      = (if ?D then 0 else column ''delta_pulse_number'' ta ! i) + (if selected ! i then cycles else 0)"
    by (simp add: d3 add_to_selected_nth l2 len d2)
  have sticky: "\<forall>cs. use_pulse_numbers (foldl (run X) s' cs)"
    using on by (simp add: foldl_run_tracking)
  have fin: "table (all_toas s') = Some ta3" "table (selected_toas s') = Some ts2"
    using t3 t2 sel3 by (simp_all add: fr)
  have l2': "length (rows ts2) = length (rows ts)" by (fact l2(2))
  have P: "if ''pulse_number'' \<notin> set (colnames ta) \<or> ''pulse_number'' \<notin> set (colnames ts)
        then column ''pulse_number'' ta3 = map (pulse_number_of X m) (rows ta)
           \<and> column ''pulse_number'' ts2 = map (pulse_number_of X m) (rows ts)
        else column ''pulse_number'' ta3 = column ''pulse_number'' ta
           \<and> column ''pulse_number'' ts2 = column ''pulse_number'' ts"
    by (simp add: p3 p1 p2(2))
  have Dd: "if ''delta_pulse_number'' \<notin> set (colnames ta) \<or> ''delta_pulse_number'' \<notin> set (colnames ts)
        then column ''delta_pulse_number'' ts2 = replicate (length (rows ts)) 0
           \<and> (\<forall>i<length (rows ta). column ''delta_pulse_number'' ta3 ! i
                  = (if selected ! i then cycles else 0))
        else column ''delta_pulse_number'' ts2 = column ''delta_pulse_number'' ts
           \<and> (\<forall>i<length (rows ta). column ''delta_pulse_number'' ta3 ! i
                  = column ''delta_pulse_number'' ta ! i + (if selected ! i then cycles else 0))"
    using d3n by (simp add: d2(2))
  show ?thesis
    by (intro exI conjI) (fact ta ts fin m len l3 l2' c3 c2(1,2) P Dd on sticky)+
qed


theorem add_phase_wrap_effect_witness:
  "snd (add_phase_wrap ex_refining (ex_session [0, 1, 2] [0, 1, 2]) [True, False, True] 1) = Inr ()
   \<and> map_option (column ''delta_pulse_number'') (table (all_toas ex_wrapped)) = Some [1, 0, 1]
   \<and> map_option (column ''delta_pulse_number'') (table (selected_toas ex_wrapped)) = Some [0, 0, 0]
   \<and> map_option (column ''pulse_number'') (table (all_toas ex_wrapped)) = Some [0, 1, 2]
   \<and> use_pulse_numbers ex_wrapped
   \<and> use_pulse_numbers (foldl (run ex_refining) ex_wrapped
        [Fit [True, True, True] 1 False, Delete [1] (Some [True, True, True]), Reset_model])"
proof -
  let ?r = "add_phase_wrap ex_refining (ex_session [0, 1, 2] [0, 1, 2]) [True, False, True] 1"
  have ev: "snd ?r = Inr ()
   \<and> map_option (column ''delta_pulse_number'') (table (all_toas ex_wrapped)) = Some [1, 0, 1]
   \<and> map_option (column ''delta_pulse_number'') (table (selected_toas ex_wrapped)) = Some [0, 0, 0]
   \<and> map_option (column ''pulse_number'') (table (all_toas ex_wrapped)) = Some [0, 1, 2]"
    by code_simp
  then have ret: "?r = (ex_wrapped, Inr ())"
    unfolding ex_wrapped_def by (metis prod.collapse)
  from add_phase_wrap_effect [OF ret]
  have "use_pulse_numbers ex_wrapped \<and> (\<forall>cs. use_pulse_numbers (foldl (run ex_refining) ex_wrapped cs))"
    by blast
  with ev show ?thesis by blast
qed

text \<open>
  Claim C9 (phase wraps).  As stated, the claim fails in its last part: tracking does not
  stay on for the rest of the session, since \<open>resetAll\<close> sets \<open>use_pulse_numbers\<close> to
  \<open>False\<close>.
\<close>

theorem tracking_off_after_resetAll:
  "use_pulse_numbers ex_wrapped \<and> \<not> use_pulse_numbers (fst (resetAll ex_refining ex_wrapped))"
proof -
  have "use_pulse_numbers ex_wrapped" by code_simp
  moreover have "\<not> use_pulse_numbers (fst (resetAll ex_refining ex_wrapped))"
    by (simp add: resetAll_def reset_TOAs_def update_resids_frame)
  ultimately show ?thesis by simp
qed

section \<open>Jumps\<close>

subsection \<open>Ids and flags\<close>




lemma jump_ids_append:
  "jump_ids (m\<lparr>params := params m @ [(JUMP k, p)]\<rparr>) = jump_ids m @ [k]"
  by (simp add: jump_ids_def)







lemma length_toas_jumped [simp]: "length (toas_jumped tb num) = length tb"
  by (simp add: toas_jumped_def)


lemma length_flag_selected [simp]: "length selected = length tb \<Longrightarrow> length (flag_selected k tb selected) = length tb"
  by (simp add: flag_selected_def)




subsection \<open>The loop over the jumps\<close>




subsection \<open>Adding a jump and removing it again\<close>

















end
